theory Spec2Isabelle
  imports Main
begin

section \<open>Go errors and the Kubernetes error predicates\<close>

text \<open>
  A Go \<open>error\<close> value is either a Kubernetes status error carrying a reason, a plain
  error made with \<open>fmt.Errorf\<close>, or an error wrapping another one (\<open>fmt.Errorf\<close> with
  the verb \<open>%w\<close>). A function returning \<open>error\<close> returns \<open>go_error option\<close>, with
  \<open>None\<close> for \<open>nil\<close>. A run-time panic (a nil pointer dereference) ends the function
  where it happens; it is carried as the value \<open>Panic\<close>, which no error predicate
  recognises.
\<close>

datatype StatusReason = NotFound | Conflict | AlreadyExists | Forbidden | InternalError

datatype go_error =
    StatusError StatusReason
  | PlainError string
  | Wrapped string go_error
  | Panic string

fun reasonForError :: "go_error \<Rightarrow> StatusReason option" where
  "reasonForError (StatusError r) = Some r"
| "reasonForError (PlainError m) = None"
| "reasonForError (Wrapped m e) = reasonForError e"
| "reasonForError (Panic m) = None"

definition IsNotFound :: "go_error option \<Rightarrow> bool" where
  "IsNotFound err = (case err of None \<Rightarrow> False | Some e \<Rightarrow> reasonForError e = Some NotFound)"

definition IsConflict :: "go_error option \<Rightarrow> bool" where
  "IsConflict err = (case err of None \<Rightarrow> False | Some e \<Rightarrow> reasonForError e = Some Conflict)"

section \<open>String formatting\<close>

text \<open>
  \<open>fmt.Sprintf\<close> restricted to the verb \<open>%s\<close> with string operands, the only verb of
  the templates of this program. A verb with no operand left prints \<open>%!s(MISSING)\<close>;
  operands left over are reported after the text, as Go does.
\<close>

fun extraOperands :: "string list \<Rightarrow> string" where
  "extraOperands [] = []"
| "extraOperands [a] = ''string='' @ a"
| "extraOperands (a # b # rest) = ''string='' @ a @ '', '' @ extraOperands (b # rest)"

fun Sprintf :: "string \<Rightarrow> string list \<Rightarrow> string" where
  "Sprintf [] args = (if args = [] then [] else ''%!(EXTRA '' @ extraOperands args @ '')'')"
| "Sprintf [c] args = c # Sprintf [] args"
| "Sprintf (c # d # rest) args =
     (if c = CHR ''%'' \<and> d = CHR ''s'' then
        (case args of
           [] \<Rightarrow> ''%!s(MISSING)'' @ Sprintf rest []
         | a # as \<Rightarrow> a @ Sprintf rest as)
      else c # Sprintf (d # rest) args)"

section \<open>The network policy reconciler\<close>

subsection \<open>Constants\<close>

definition OtterizeNetworkPolicyNameTemplate :: string where
  "OtterizeNetworkPolicyNameTemplate = ''access-to-%s-from-%s''"

definition OtterizeNetworkPolicy :: string where
  "OtterizeNetworkPolicy = ''otterize/network-policy''"

definition NetworkPolicyFinalizerName :: string where
  "NetworkPolicyFinalizerName = ''otterize-intents.policies/finalizer''"

subsection \<open>Objects\<close>

text \<open>A namespaced name is the pair (namespace, name).\<close>

type_synonym NamespacedName = "string \<times> string"

record Intent =
  intent_Server :: string
  intent_Namespace :: string

record IntentsSpec =
  spec_ServiceName :: string
  spec_Calls :: "Intent list"

record Intents =
  intents_Name :: string
  intents_Namespace :: string
  intents_Spec :: "IntentsSpec option"
  intents_DeletionTimestamp :: "nat option"
  intents_Finalizers :: "string list"

text \<open>
  The derived firewall rule. Its pod selector and its ingress pod selector are label
  values computed by \<open>GetFormattedOtterizeIdentity\<close> from (server, namespace of the
  call); the record keeps that pair, and the namespace the ingress peer is selected by.
\<close>

record NetworkPolicy =
  policy_Name :: string
  policy_Namespace :: string
  policy_Labels :: "(string \<times> string) list"
  policy_TargetServer :: "string \<times> string"
  policy_FromNamespace :: string

definition emptyPolicy :: NetworkPolicy where
  "emptyPolicy = \<lparr>policy_Name = [], policy_Namespace = [], policy_Labels = [],
     policy_TargetServer = ([], []), policy_FromNamespace = []\<rparr>"

text \<open>
  Modelled from the spec: the intent types and their accessor \<open>GetCallsList\<close> are declared
  outside the files at hand. The spec: an intent object has a declaring service name, a
  namespace, an ordered list of Calls each naming a target service and an optional target
  namespace, a removal timestamp and a set of finalizer tokens. Reconcile reads the list
  only after it has checked that the Spec is present.
\<close>

definition GetCallsList :: "Intents \<Rightarrow> Intent list" where
  "GetCallsList intents = (case intents_Spec intents of None \<Rightarrow> [] | Some s \<Rightarrow> spec_Calls s)"

definition intentsKey :: "Intents \<Rightarrow> NamespacedName" where
  "intentsKey obj = (intents_Namespace obj, intents_Name obj)"

definition policyKey :: "NetworkPolicy \<Rightarrow> NamespacedName" where
  "policyKey p = (policy_Namespace p, policy_Name p)"

subsection \<open>Finalizer helpers of controllerutil\<close>

definition ContainsFinalizer :: "Intents \<Rightarrow> string \<Rightarrow> bool" where
  "ContainsFinalizer obj f = (f \<in> set (intents_Finalizers obj))"

definition AddFinalizer :: "Intents \<Rightarrow> string \<Rightarrow> Intents" where
  "AddFinalizer obj f =
     (if f \<in> set (intents_Finalizers obj) then obj
      else obj\<lparr>intents_Finalizers := intents_Finalizers obj @ [f]\<rparr>)"

definition RemoveFinalizer :: "Intents \<Rightarrow> string \<Rightarrow> Intents" where
  "RemoveFinalizer obj f = obj\<lparr>intents_Finalizers := filter (\<lambda>g. g \<noteq> f) (intents_Finalizers obj)\<rparr>"

subsection \<open>The cluster seen through the client\<close>

text \<open>
  Every call of the client is one \<open>client_op\<close>. The cluster holds the stored intent
  objects and firewall rules, the list of calls issued so far, and a failure plan: the
  error (if any) that the API server answers to a call, given the calls before it.
\<close>

datatype client_op =
    GetIntents NamespacedName
  | GetPolicy NamespacedName
  | CreatePolicy NetworkPolicy
  | DeletePolicy NamespacedName
  | ListIntents string string
  | UpdateIntents Intents

record cluster =
  intentsObjs :: "Intents list"
  policyObjs :: "NetworkPolicy list"
  faults :: "client_op list \<Rightarrow> client_op \<Rightarrow> go_error option"
  calls :: "client_op list"

definition issue :: "client_op \<Rightarrow> cluster \<Rightarrow> go_error option \<times> cluster" where
  "issue op c = (faults c (calls c) op, c\<lparr>calls := calls c @ [op]\<rparr>)"

definition clientGetIntents :: "NamespacedName \<Rightarrow> cluster \<Rightarrow> (go_error option \<times> Intents option) \<times> cluster" where
  "clientGetIntents key c =
     (case issue (GetIntents key) c of
        (Some e, c') \<Rightarrow> ((Some e, None), c')
      | (None, c') \<Rightarrow>
          (case find (\<lambda>obj. intentsKey obj = key) (intentsObjs c') of
             None \<Rightarrow> ((Some (StatusError NotFound), None), c')
           | Some obj \<Rightarrow> ((None, Some obj), c')))"

text \<open>
  \<open>Get\<close> of a firewall rule fills the object passed by the caller; on an error the
  object stays as the caller made it (empty).
\<close>

definition clientGetPolicy :: "NamespacedName \<Rightarrow> cluster \<Rightarrow> (go_error option \<times> NetworkPolicy) \<times> cluster" where
  "clientGetPolicy key c =
     (case issue (GetPolicy key) c of
        (Some e, c') \<Rightarrow> ((Some e, emptyPolicy), c')
      | (None, c') \<Rightarrow>
          (case find (\<lambda>p. policyKey p = key) (policyObjs c') of
             None \<Rightarrow> ((Some (StatusError NotFound), emptyPolicy), c')
           | Some p \<Rightarrow> ((None, p), c')))"

definition clientCreatePolicy :: "NetworkPolicy \<Rightarrow> cluster \<Rightarrow> go_error option \<times> cluster" where
  "clientCreatePolicy p c =
     (case issue (CreatePolicy p) c of
        (Some e, c') \<Rightarrow> (Some e, c')
      | (None, c') \<Rightarrow>
          (if policyKey p \<in> set (map policyKey (policyObjs c')) then (Some (StatusError AlreadyExists), c')
           else (None, c'\<lparr>policyObjs := policyObjs c' @ [p]\<rparr>)))"

definition clientDeletePolicy :: "NetworkPolicy \<Rightarrow> cluster \<Rightarrow> go_error option \<times> cluster" where
  "clientDeletePolicy p c =
     (case issue (DeletePolicy (policyKey p)) c of
        (Some e, c') \<Rightarrow> (Some e, c')
      | (None, c') \<Rightarrow>
          (if policy_Name p = [] then (Some (PlainError ''resource name may not be empty''), c')
           else if policyKey p \<in> set (map policyKey (policyObjs c')) then
             (None, c'\<lparr>policyObjs := filter (\<lambda>q. policyKey q \<noteq> policyKey p) (policyObjs c')\<rparr>)
           else (Some (StatusError NotFound), c')))"

text \<open>
  Modelled from the spec: the field index \<open>OtterizeTargetServerIndexField\<close> is registered
  outside the files at hand; the spec describes it as an index keyed on target-service name,
  so an intent object is indexed under the server of each of its Calls.
\<close>

definition targetServerIndex :: "Intents \<Rightarrow> string list" where
  "targetServerIndex obj = map intent_Server (GetCallsList obj)"

definition clientListIntents :: "string \<Rightarrow> string \<Rightarrow> cluster \<Rightarrow> (go_error option \<times> Intents list) \<times> cluster" where
  "clientListIntents server ns c =
     (case issue (ListIntents server ns) c of
        (Some e, c') \<Rightarrow> ((Some e, []), c')
      | (None, c') \<Rightarrow>
          ((None, filter (\<lambda>obj. intents_Namespace obj = ns \<and> server \<in> set (targetServerIndex obj))
                    (intentsObjs c')), c'))"

text \<open>
  \<open>Update\<close> stores the object given. The API server removes an object whose removal
  timestamp is set as soon as an update leaves it with no finalizer.
\<close>

definition clientUpdateIntents :: "Intents \<Rightarrow> cluster \<Rightarrow> go_error option \<times> cluster" where
  "clientUpdateIntents obj c =
     (case issue (UpdateIntents obj) c of
        (Some e, c') \<Rightarrow> (Some e, c')
      | (None, c') \<Rightarrow>
          (if intentsKey obj \<in> set (map intentsKey (intentsObjs c')) then
             (if intents_DeletionTimestamp obj \<noteq> None \<and> intents_Finalizers obj = [] then
                (None, c'\<lparr>intentsObjs := filter (\<lambda>x. intentsKey x \<noteq> intentsKey obj) (intentsObjs c')\<rparr>)
              else
                (None, c'\<lparr>intentsObjs := map (\<lambda>x. if intentsKey x = intentsKey obj then obj else x)
                                            (intentsObjs c')\<rparr>))
           else (Some (StatusError NotFound), c')))"

subsection \<open>Reconcile and its helpers\<close>

record Result =
  Requeue :: bool

definition policyNameFor :: "string \<Rightarrow> string \<Rightarrow> string" where
  "policyNameFor server intentsObjNamespace =
     Sprintf OtterizeNetworkPolicyNameTemplate [server, intentsObjNamespace]"

definition buildNetworkPolicyObjectForIntent :: "Intent \<Rightarrow> string \<Rightarrow> string \<Rightarrow> NetworkPolicy" where
  "buildNetworkPolicyObjectForIntent intent policyName intentsObjNamespace =
     \<lparr>policy_Name = policyName,
      policy_Namespace = intent_Namespace intent,
      policy_Labels = [(OtterizeNetworkPolicy, ''true'')],
      policy_TargetServer = (intent_Server intent, intent_Namespace intent),
      policy_FromNamespace = intentsObjNamespace\<rparr>"

definition handleNetworkPolicyCreation :: "Intent \<Rightarrow> string \<Rightarrow> cluster \<Rightarrow> go_error option \<times> cluster" where
  "handleNetworkPolicyCreation intent intentsObjNamespace c =
     (let policyName = policyNameFor (intent_Server intent) intentsObjNamespace in
      case clientGetPolicy (intent_Namespace intent, policyName) c of
        ((err, policy), c1) \<Rightarrow>
          (if IsNotFound err then
             clientCreatePolicy (buildNetworkPolicyObjectForIntent intent policyName intentsObjNamespace) c1
           else if err \<noteq> None then (err, c1)
           else (None, c1)))"

definition removeNetworkPolicy :: "Intent \<Rightarrow> string \<Rightarrow> cluster \<Rightarrow> go_error option \<times> cluster" where
  "removeNetworkPolicy intent intentsObjNamespace c =
     (let policyName = policyNameFor (intent_Server intent) intentsObjNamespace in
      case clientGetPolicy (intent_Namespace intent, policyName) c of
        ((err, policy), c1) \<Rightarrow>
          (if IsNotFound err then (None, c1)
           else (case clientDeletePolicy policy c1 of
                   (Some e, c2) \<Rightarrow> (None, c2)
                 | (None, c2) \<Rightarrow> (None, c2))))"

text \<open>The loop over the Calls of a terminating intent object.\<close>

fun cleanPolicies :: "Intent list \<Rightarrow> Intents \<Rightarrow> cluster \<Rightarrow> go_error option \<times> cluster" where
  "cleanPolicies [] intents c = (None, c)"
| "cleanPolicies (intent0 # rest) intents c =
     (let intent = (if intent_Namespace intent0 = []
                    then intent0\<lparr>intent_Namespace := intents_Namespace intents\<rparr> else intent0) in
      case clientListIntents (intent_Server intent) (intents_Namespace intents) c of
        ((Some e, intentsList), c1) \<Rightarrow> (Some e, c1)
      | ((None, intentsList), c1) \<Rightarrow>
          (if length intentsList = 1 then
             (case removeNetworkPolicy intent (intents_Namespace intents) c1 of
                (Some e, c2) \<Rightarrow> (Some e, c2)
              | (None, c2) \<Rightarrow> cleanPolicies rest intents c2)
           else cleanPolicies rest intents c1))"

text \<open>
  With the finalizer present, the first statement logs \<open>intents.Spec.Service.Name\<close>: on
  an object with no Spec it panics before any call of the client. Reconcile calls this
  function only after it has checked the Spec.
\<close>

definition cleanFinalizerAndPolicies :: "Intents \<Rightarrow> cluster \<Rightarrow> go_error option \<times> cluster" where
  "cleanFinalizerAndPolicies intents c =
     (if ContainsFinalizer intents NetworkPolicyFinalizerName then
        (case intents_Spec intents of
           None \<Rightarrow> (Some (Panic ''invalid memory address or nil pointer dereference''), c)
         | Some spec \<Rightarrow>
             (case cleanPolicies (GetCallsList intents) intents c of
                (Some e, c1) \<Rightarrow> (Some e, c1)
              | (None, c1) \<Rightarrow>
                  (case clientUpdateIntents (RemoveFinalizer intents NetworkPolicyFinalizerName) c1 of
                     (Some e, c2) \<Rightarrow> (Some e, c2)
                   | (None, c2) \<Rightarrow> (None, c2))))
      else (None, c))"

text \<open>The loop over the Calls of an active intent object.\<close>

fun createPolicies :: "Intent list \<Rightarrow> string \<Rightarrow> cluster \<Rightarrow> go_error option \<times> cluster" where
  "createPolicies [] reqNamespace c = (None, c)"
| "createPolicies (intent0 # rest) reqNamespace c =
     (let intent = (if intent_Namespace intent0 = []
                    then intent0\<lparr>intent_Namespace := reqNamespace\<rparr> else intent0) in
      case handleNetworkPolicyCreation intent reqNamespace c of
        (Some e, c1) \<Rightarrow> (Some e, c1)
      | (None, c1) \<Rightarrow> createPolicies rest reqNamespace c1)"

definition NetworkPolicyReconciler_Reconcile :: "NamespacedName \<Rightarrow> cluster \<Rightarrow> (Result \<times> go_error option) \<times> cluster" where
  "NetworkPolicyReconciler_Reconcile req c =
     (case clientGetIntents req c of
        ((err, got), c1) \<Rightarrow>
          (if IsNotFound err then ((\<lparr>Requeue = False\<rparr>, None), c1)
           else if err \<noteq> None then ((\<lparr>Requeue = False\<rparr>, err), c1)
           else (case got of
              None \<Rightarrow> ((\<lparr>Requeue = False\<rparr>, None), c1)
            | Some intents \<Rightarrow>
               (if intents_Spec intents = None then ((\<lparr>Requeue = False\<rparr>, None), c1)
                else if intents_DeletionTimestamp intents \<noteq> None then
                  (case cleanFinalizerAndPolicies intents c1 of
                     (Some e, c2) \<Rightarrow>
                        (if IsConflict (Some e) then ((\<lparr>Requeue = True\<rparr>, None), c2)
                         else ((\<lparr>Requeue = False\<rparr>, Some e), c2))
                   | (None, c2) \<Rightarrow> ((\<lparr>Requeue = False\<rparr>, None), c2))
                else
                  (case (if \<not> ContainsFinalizer intents NetworkPolicyFinalizerName
                         then clientUpdateIntents (AddFinalizer intents NetworkPolicyFinalizerName) c1
                         else (None, c1)) of
                     (Some e, c2) \<Rightarrow> ((\<lparr>Requeue = False\<rparr>, Some e), c2)
                   | (None, c2) \<Rightarrow>
                       (case createPolicies (GetCallsList intents) (fst req) c2 of
                          (err3, c3) \<Rightarrow> ((\<lparr>Requeue = False\<rparr>, err3), c3)))))))"

section \<open>The Kafka ACL reconciler\<close>

subsection \<open>Event reasons\<close>

definition ReasonCouldNotConnectToKafkaServer :: string where
  "ReasonCouldNotConnectToKafkaServer = ''CouldNotConnectToKafkaServer''"

definition ReasonCouldNotApplyIntentsOnKafkaServer :: string where
  "ReasonCouldNotApplyIntentsOnKafkaServer = ''CouldNotApplyIntentsOnKafkaServer''"

definition ReasonKafkaACLCreationDisabled :: string where
  "ReasonKafkaACLCreationDisabled = ''KafkaACLCreationDisabled''"

definition ReasonKafkaServerNotConfigured :: string where
  "ReasonKafkaServerNotConfigured = ''KafkaServerNotConfigured''"

definition ReasonRemovingKafkaACLsFailed :: string where
  "ReasonRemovingKafkaACLsFailed = ''RemovingKafkaACLsFailed''"

definition ReasonApplyingKafkaACLsFailed :: string where
  "ReasonApplyingKafkaACLsFailed = ''ApplyingKafkaACLsFailed''"

definition ReasonAppliedKafkaACLs :: string where
  "ReasonAppliedKafkaACLs = ''AppliedKafkaACLs''"

definition ReasonIntentsOperatorIdentityResolveFailed :: string where
  "ReasonIntentsOperatorIdentityResolveFailed = ''IntentsOperatorIdentityResolveFailed''"

text \<open>
  Modelled from the spec: the reason \<open>consts.ReasonEnforcementDefaultOff\<close> is declared
  outside the files at hand; it names the event recorded when enforcement is off by default.
  Its text is not known here, and the name of the constant stands for it.
\<close>

definition ReasonEnforcementDefaultOff :: string where
  "ReasonEnforcementDefaultOff = ''ReasonEnforcementDefaultOff''"

subsection \<open>Objects\<close>

datatype IntentType = IntentTypeKafka | IntentTypeHTTP | IntentTypeUnset

record KafkaTopic =
  topic_Name :: string
  topic_Operations :: "string list"

text \<open>
  A Call of a client intents object: the target service, the optional target namespace
  (empty when not given), the kind of call and the topics of a broker call.
\<close>

record Call =
  call_Name :: string
  call_Namespace :: string
  call_Type :: IntentType
  call_Topics :: "KafkaTopic list"

record ClientIntentsSpec =
  cspec_ServiceName :: string
  cspec_Calls :: "Call list"

record ClientIntents =
  ci_Name :: string
  ci_Namespace :: string
  ci_Spec :: "ClientIntentsSpec option"
  ci_DeletionTimestamp :: "nat option"

definition clientIntentsKey :: "ClientIntents \<Rightarrow> NamespacedName" where
  "clientIntentsKey obj = (ci_Namespace obj, ci_Name obj)"

text \<open>
  Modelled from the spec: the accessors \<open>GetTargetServerName\<close> and
  \<open>GetTargetServerNamespace\<close> of a Call are declared outside the files at hand; the
  spec gives a Call a target service and an optional target namespace that defaults to the
  declaring namespace.
\<close>

definition GetTargetServerName :: "Call \<Rightarrow> string" where
  "GetTargetServerName intent = call_Name intent"

definition GetTargetServerNamespace :: "Call \<Rightarrow> string \<Rightarrow> string" where
  "GetTargetServerNamespace intent defaultNamespace =
     (if call_Namespace intent = [] then defaultNamespace else call_Namespace intent)"

record KafkaServerConfig =
  config_Addr :: string

type_synonym TLSSource = string

text \<open>
  An access-control entry on a broker: the principal (declaring service, namespace),
  the topic and the operation.
\<close>

type_synonym ACL = "(string \<times> string) \<times> string \<times> string"

datatype EventType = Normal | Warning

text \<open>An event: its type, its reason and the object it is attached to.\<close>

type_synonym Event = "EventType \<times> string \<times> NamespacedName"

record KafkaACLReconciler =
  enforcementDefaultState :: bool
  enableKafkaACLCreation :: bool
  operatorPodName :: string
  operatorPodNamespace :: string

subsection \<open>The environment of the reconciler\<close>

text \<open>
  Every call to a collaborator (the client, the enforcement resolver, the broker admin
  factory and its sessions, the pod identity resolver) is one \<open>kafka_op\<close>. The
  environment holds the stored client intents, the protection declarations, the configured
  brokers in the order the store visits them, the ACL entries on each broker, the
  annotated names of pods, the events recorded, the calls issued, and a failure plan.
\<close>

datatype kafka_op =
    OpGetClientIntents NamespacedName
  | OpIsEnforced NamespacedName
  | OpOpenAdmin NamespacedName bool bool
  | OpApplyClientIntents NamespacedName string string "Call list"
  | OpRemoveClientIntents NamespacedName string string
  | OpCloseAdmin NamespacedName
  | OpGetPodAnnotatedName string string

record kafka_env =
  clientIntentsObjs :: "ClientIntents list"
  protectedServices :: "NamespacedName list"
  kafkaServers :: "(NamespacedName \<times> KafkaServerConfig) list"
  tlsSource :: TLSSource
  brokerACLs :: "(NamespacedName \<times> ACL) list"
  podAnnotatedNames :: "((string \<times> string) \<times> string) list"
  events :: "Event list"
  kfaults :: "kafka_op list \<Rightarrow> kafka_op \<Rightarrow> go_error option"
  kcalls :: "kafka_op list"

definition kissue :: "kafka_op \<Rightarrow> kafka_env \<Rightarrow> go_error option \<times> kafka_env" where
  "kissue op env = (kfaults env (kcalls env) op, env\<lparr>kcalls := kcalls env @ [op]\<rparr>)"

definition RecordWarningEvent :: "ClientIntents \<Rightarrow> string \<Rightarrow> kafka_env \<Rightarrow> kafka_env" where
  "RecordWarningEvent obj reason env = env\<lparr>events := events env @ [(Warning, reason, clientIntentsKey obj)]\<rparr>"

definition RecordNormalEvent :: "ClientIntents \<Rightarrow> string \<Rightarrow> kafka_env \<Rightarrow> kafka_env" where
  "RecordNormalEvent obj reason env = env\<lparr>events := events env @ [(Normal, reason, clientIntentsKey obj)]\<rparr>"

definition clientGetClientIntents :: "NamespacedName \<Rightarrow> kafka_env \<Rightarrow> (go_error option \<times> ClientIntents option) \<times> kafka_env" where
  "clientGetClientIntents key env =
     (case kissue (OpGetClientIntents key) env of
        (Some e, env') \<Rightarrow> ((Some e, None), env')
      | (None, env') \<Rightarrow>
          (case find (\<lambda>obj. clientIntentsKey obj = key) (clientIntentsObjs env') of
             None \<Rightarrow> ((Some (StatusError NotFound), None), env')
           | Some obj \<Rightarrow> ((None, Some obj), env')))"

text \<open>
  Modelled from the spec: \<open>IsServerEnforcementEnabledDueToProtectionOrDefaultState\<close> is
  declared outside the files at hand. The spec: it returns true if a Protection Declaration
  exists for that (service, namespace), otherwise the configured cluster-wide default, and
  it propagates read errors of the underlying store.
\<close>

definition IsServerEnforcementEnabledDueToProtectionOrDefaultState ::
  "string \<Rightarrow> string \<Rightarrow> bool \<Rightarrow> kafka_env \<Rightarrow> (bool \<times> go_error option) \<times> kafka_env" where
  "IsServerEnforcementEnabledDueToProtectionOrDefaultState serverName serverNamespace defaultState env =
     (case kissue (OpIsEnforced (serverNamespace, serverName)) env of
        (Some e, env') \<Rightarrow> ((False, Some e), env')
      | (None, env') \<Rightarrow>
          ((if (serverNamespace, serverName) \<in> set (protectedServices env') then True else defaultState,
            None), env'))"

text \<open>
  Modelled from the spec: \<open>GetPodAnnotatedName\<close> of the service resolver is declared
  outside the files at hand. The spec: \<open>ResolvePodIdentity(podName, namespace)\<close> returns
  (identity, found, error).
\<close>

definition GetPodAnnotatedName ::
  "string \<Rightarrow> string \<Rightarrow> kafka_env \<Rightarrow> (string \<times> bool \<times> go_error option) \<times> kafka_env" where
  "GetPodAnnotatedName podName podNamespace env =
     (case kissue (OpGetPodAnnotatedName podName podNamespace) env of
        (Some e, env') \<Rightarrow> (([], False, Some e), env')
      | (None, env') \<Rightarrow>
          (case map_of (podAnnotatedNames env') (podNamespace, podName) of
             None \<Rightarrow> (([], False, None), env')
           | Some name \<Rightarrow> ((name, True, None), env')))"

text \<open>
  \<open>fmt.Errorf\<close> with a final \<open>%w\<close>: the error wraps the cause, and its text is the
  format up to \<open>%w\<close> with the other operands filled in. A namespaced name prints as
  \<open>namespace/name\<close>.
\<close>

definition NamespacedName_String :: "NamespacedName \<Rightarrow> string" where
  "NamespacedName_String n = fst n @ ''/'' @ snd n"

definition Errorf_w :: "string \<Rightarrow> string list \<Rightarrow> go_error \<Rightarrow> go_error" where
  "Errorf_w format args cause = Wrapped (Sprintf format args) cause"

subsection \<open>The broker admin collaborator\<close>

text \<open>
  Modelled from the spec: the factory of admin sessions and the sessions of the broker admin
  collaborator are implemented outside the files at hand. The spec: the factory takes the
  configuration of the broker, the TLS source, whether creation is enabled and whether
  enforcement is active, and returns a session or an error; \<open>ApplyClientIntents\<close>
  reconciles the ACL entries of (declaring service, namespace) on the broker with the
  Calls given; the collaborator skips
  permission grants, but not permission revocations, when enforcement is false or creation
  is disabled. \<open>RemoveClientIntents\<close> removes all ACL entries owned by the declaring service
  identity, regardless of the enforcement state. A call is atomic: it fails with no effect
  or succeeds.
\<close>

record KafkaIntentsAdmin =
  admin_Server :: NamespacedName
  admin_enableKafkaACLCreation :: bool
  admin_enforcementEnabled :: bool

definition getNewKafkaIntentsAdmin ::
  "NamespacedName \<Rightarrow> KafkaServerConfig \<Rightarrow> TLSSource \<Rightarrow> bool \<Rightarrow> bool \<Rightarrow> kafka_env
   \<Rightarrow> (go_error + KafkaIntentsAdmin) \<times> kafka_env" where
  "getNewKafkaIntentsAdmin serverName config tls enableCreation enforcement env =
     (case kissue (OpOpenAdmin serverName enableCreation enforcement) env of
        (Some e, env') \<Rightarrow> (Inl e, env')
      | (None, env') \<Rightarrow>
          (Inr \<lparr>admin_Server = serverName, admin_enableKafkaACLCreation = enableCreation,
                admin_enforcementEnabled = enforcement\<rparr>, env'))"

definition requestedACLs :: "string \<times> string \<Rightarrow> Call list \<Rightarrow> ACL list" where
  "requestedACLs clientIdentity intents =
     concat (map (\<lambda>intent. concat (map (\<lambda>t. map (\<lambda>operation. (clientIdentity, topic_Name t, operation))
                                              (topic_Operations t))
                                    (call_Topics intent)))
                 intents)"

definition ApplyClientIntents ::
  "KafkaIntentsAdmin \<Rightarrow> string \<Rightarrow> string \<Rightarrow> Call list \<Rightarrow> kafka_env \<Rightarrow> go_error option \<times> kafka_env" where
  "ApplyClientIntents admin clientName clientNamespace intents env =
     (case kissue (OpApplyClientIntents (admin_Server admin) clientName clientNamespace intents) env of
        (Some e, env') \<Rightarrow> (Some e, env')
      | (None, env') \<Rightarrow>
          (let clientIdentity = (clientName, clientNamespace);
               desired = map (Pair (admin_Server admin)) (requestedACLs clientIdentity intents);
               kept = filter (\<lambda>entry. fst entry \<noteq> admin_Server admin \<or> fst (snd entry) \<noteq> clientIdentity
                                        \<or> entry \<in> set desired) (brokerACLs env');
               grants = (if admin_enableKafkaACLCreation admin \<and> admin_enforcementEnabled admin
                         then remdups (filter (\<lambda>entry. entry \<notin> set (brokerACLs env')) desired)
                         else [])
           in (None, env'\<lparr>brokerACLs := kept @ grants\<rparr>)))"

definition RemoveClientIntents ::
  "KafkaIntentsAdmin \<Rightarrow> string \<Rightarrow> string \<Rightarrow> kafka_env \<Rightarrow> go_error option \<times> kafka_env" where
  "RemoveClientIntents admin clientName clientNamespace env =
     (case kissue (OpRemoveClientIntents (admin_Server admin) clientName clientNamespace) env of
        (Some e, env') \<Rightarrow> (Some e, env')
      | (None, env') \<Rightarrow>
          (None, env'\<lparr>brokerACLs :=
             filter (\<lambda>entry. fst entry \<noteq> admin_Server admin \<or> fst (snd entry) \<noteq> (clientName, clientNamespace))
                    (brokerACLs env')\<rparr>))"

definition Close :: "KafkaIntentsAdmin \<Rightarrow> kafka_env \<Rightarrow> kafka_env" where
  "Close admin env = snd (kissue (OpCloseAdmin (admin_Server admin)) env)"

subsection \<open>The store of configured brokers\<close>

text \<open>
  Modelled from the spec: \<open>MapErr\<close> and \<open>Exists\<close> of the servers store are implemented
  outside the files at hand. The spec: the per-broker work is done for every configured
  broker; a failure on one broker aborts only that broker's work, the other brokers still
  proceed, and the failure is propagated as an error. \<open>MapErr\<close> therefore visits every
  broker and returns the first error met, if any.
\<close>

fun mapErrOver ::
  "(NamespacedName \<Rightarrow> KafkaServerConfig \<Rightarrow> TLSSource \<Rightarrow> kafka_env \<Rightarrow> go_error option \<times> kafka_env)
   \<Rightarrow> (NamespacedName \<times> KafkaServerConfig) list \<Rightarrow> TLSSource \<Rightarrow> kafka_env \<Rightarrow> go_error option \<times> kafka_env" where
  "mapErrOver f [] tls env = (None, env)"
| "mapErrOver f ((serverName, config) # rest) tls env =
     (case f serverName config tls env of
        (err, env1) \<Rightarrow>
          (case mapErrOver f rest tls env1 of
             (errRest, env2) \<Rightarrow> (if err \<noteq> None then err else errRest, env2)))"

definition MapErr ::
  "(NamespacedName \<Rightarrow> KafkaServerConfig \<Rightarrow> TLSSource \<Rightarrow> kafka_env \<Rightarrow> go_error option \<times> kafka_env)
   \<Rightarrow> kafka_env \<Rightarrow> go_error option \<times> kafka_env" where
  "MapErr f env = mapErrOver f (kafkaServers env) (tlsSource env) env"

definition Exists :: "string \<Rightarrow> string \<Rightarrow> kafka_env \<Rightarrow> bool" where
  "Exists name namespace env = ((namespace, name) \<in> set (map fst (kafkaServers env)))"

subsection \<open>Reconcile and its helpers\<close>

text \<open>
  The Go map from broker to Calls is an association list, its keys in the order of their
  first Call; a key that is absent reads as the empty list.
\<close>

fun appendIntent :: "NamespacedName \<Rightarrow> Call \<Rightarrow> (NamespacedName \<times> Call list) list \<Rightarrow> (NamespacedName \<times> Call list) list" where
  "appendIntent k v [] = [(k, [v])]"
| "appendIntent k v ((k', vs) # rest) =
     (if k = k' then (k', vs @ [v]) # rest else (k', vs) # appendIntent k v rest)"

definition getIntentsByServer :: "string \<Rightarrow> Call list \<Rightarrow> (NamespacedName \<times> Call list) list" where
  "getIntentsByServer defaultNamespace intents =
     foldl (\<lambda>intentsByServer intent.
              if call_Type intent \<noteq> IntentTypeKafka then intentsByServer
              else appendIntent (GetTargetServerNamespace intent defaultNamespace, GetTargetServerName intent)
                     intent intentsByServer)
           [] intents"

definition intentsFor :: "(NamespacedName \<times> Call list) list \<Rightarrow> NamespacedName \<Rightarrow> Call list" where
  "intentsFor intentsByServer serverName =
     (case map_of intentsByServer serverName of None \<Rightarrow> [] | Some vs \<Rightarrow> vs)"

text \<open>The closure that \<open>applyACLs\<close> passes to \<open>MapErr\<close>.\<close>

definition applyACLsOnServer ::
  "KafkaACLReconciler \<Rightarrow> ClientIntents \<Rightarrow> ClientIntentsSpec \<Rightarrow> (NamespacedName \<times> Call list) list
   \<Rightarrow> NamespacedName \<Rightarrow> KafkaServerConfig \<Rightarrow> TLSSource \<Rightarrow> kafka_env \<Rightarrow> go_error option \<times> kafka_env" where
  "applyACLsOnServer r intents spec intentsByServer serverName config tls env =
     (let intentsForServer = intentsFor intentsByServer serverName in
      case IsServerEnforcementEnabledDueToProtectionOrDefaultState (snd serverName) (fst serverName)
             (enforcementDefaultState r) env of
        ((shouldCreatePolicy, Some e), env1) \<Rightarrow> (Some e, env1)
      | ((shouldCreatePolicy, None), env1) \<Rightarrow>
          (let env2 = (if \<not> shouldCreatePolicy
                       then RecordNormalEvent intents ReasonEnforcementDefaultOff env1 else env1) in
           case getNewKafkaIntentsAdmin serverName config tls (enableKafkaACLCreation r) shouldCreatePolicy env2 of
             (Inl e, env3) \<Rightarrow>
               (Some (Errorf_w ''failed to connect to Kafka server %s: '' [NamespacedName_String serverName] e),
                RecordWarningEvent intents ReasonCouldNotConnectToKafkaServer env3)
           | (Inr kafkaIntentsAdmin, env3) \<Rightarrow>
               (case ApplyClientIntents kafkaIntentsAdmin (cspec_ServiceName spec) (ci_Namespace intents)
                       intentsForServer env3 of
                  (Some e, env4) \<Rightarrow>
                    (Some (Errorf_w ''failed applying intents on kafka server %s: '' [NamespacedName_String serverName] e),
                     Close kafkaIntentsAdmin
                       (RecordWarningEvent intents ReasonCouldNotApplyIntentsOnKafkaServer env4))
                | (None, env4) \<Rightarrow> (None, Close kafkaIntentsAdmin env4))))"

definition applyACLs ::
  "KafkaACLReconciler \<Rightarrow> ClientIntents \<Rightarrow> ClientIntentsSpec \<Rightarrow> kafka_env \<Rightarrow> (nat \<times> go_error option) \<times> kafka_env" where
  "applyACLs r intents spec env =
     (let intentsByServer = getIntentsByServer (ci_Namespace intents) (cspec_Calls spec) in
      case MapErr (applyACLsOnServer r intents spec intentsByServer) env of
        (Some e, env1) \<Rightarrow> ((0, Some e), env1)
      | (None, env1) \<Rightarrow>
          (let env2 = (if \<not> enableKafkaACLCreation r
                       then RecordNormalEvent intents ReasonKafkaACLCreationDisabled env1 else env1);
               env3 = foldl (\<lambda>env' serverName.
                               if \<not> Exists (snd serverName) (fst serverName) env'
                               then RecordWarningEvent intents ReasonKafkaServerNotConfigured env'
                               else env')
                            env2 (map fst intentsByServer)
           in ((length intentsByServer, None), env3)))"

text \<open>The closure that \<open>RemoveACLs\<close> passes to \<open>MapErr\<close>.\<close>

definition removeACLsOnServer ::
  "KafkaACLReconciler \<Rightarrow> ClientIntents \<Rightarrow> ClientIntentsSpec
   \<Rightarrow> NamespacedName \<Rightarrow> KafkaServerConfig \<Rightarrow> TLSSource \<Rightarrow> kafka_env \<Rightarrow> go_error option \<times> kafka_env" where
  "removeACLsOnServer r intents spec serverName config tls env =
     (case IsServerEnforcementEnabledDueToProtectionOrDefaultState (snd serverName) (fst serverName)
             (enforcementDefaultState r) env of
        ((shouldCreatePolicy, Some e), env1) \<Rightarrow> (Some e, env1)
      | ((shouldCreatePolicy, None), env1) \<Rightarrow>
          (case getNewKafkaIntentsAdmin serverName config tls (enableKafkaACLCreation r) shouldCreatePolicy env1 of
             (Inl e, env2) \<Rightarrow> (Some e, env2)
           | (Inr kafkaIntentsAdmin, env2) \<Rightarrow>
               (case RemoveClientIntents kafkaIntentsAdmin (cspec_ServiceName spec) (ci_Namespace intents) env2 of
                  (Some e, env3) \<Rightarrow>
                    (Some (Errorf_w ''failed removing intents from kafka server %s: '' [NamespacedName_String serverName] e),
                     Close kafkaIntentsAdmin env3)
                | (None, env3) \<Rightarrow> (None, Close kafkaIntentsAdmin env3))))"

definition RemoveACLs ::
  "KafkaACLReconciler \<Rightarrow> ClientIntents \<Rightarrow> ClientIntentsSpec \<Rightarrow> kafka_env \<Rightarrow> go_error option \<times> kafka_env" where
  "RemoveACLs r intents spec env = MapErr (removeACLsOnServer r intents spec) env"

definition isIntentsForTheIntentsOperator ::
  "KafkaACLReconciler \<Rightarrow> ClientIntents \<Rightarrow> ClientIntentsSpec \<Rightarrow> kafka_env \<Rightarrow> (bool \<times> go_error option) \<times> kafka_env" where
  "isIntentsForTheIntentsOperator r intents spec env =
     (if operatorPodNamespace r \<noteq> ci_Namespace intents then ((False, None), env)
      else (case GetPodAnnotatedName (operatorPodName r) (operatorPodNamespace r) env of
              ((name, ok, Some e), env1) \<Rightarrow>
                ((False, Some (Errorf_w ''failed resolving intents operator identity - '' [] e)), env1)
            | ((name, ok, None), env1) \<Rightarrow>
                (if \<not> ok then
                   ((False, Some (PlainError ''failed resolving intents operator identity - service name annotation required'')),
                    RecordWarningEvent intents ReasonIntentsOperatorIdentityResolveFailed env1)
                 else ((name = cspec_ServiceName spec, None), env1))))"

definition applyAcls ::
  "KafkaACLReconciler \<Rightarrow> ClientIntents \<Rightarrow> ClientIntentsSpec \<Rightarrow> kafka_env \<Rightarrow> (Result \<times> go_error option) \<times> kafka_env" where
  "applyAcls r intents spec env =
     (case applyACLs r intents spec env of
        ((serverCount, Some e), env1) \<Rightarrow>
          ((\<lparr>Requeue = False\<rparr>, Some e), RecordWarningEvent intents ReasonApplyingKafkaACLsFailed env1)
      | ((serverCount, None), env1) \<Rightarrow>
          ((\<lparr>Requeue = False\<rparr>, None),
           (if serverCount > 0 then RecordNormalEvent intents ReasonAppliedKafkaACLs env1 else env1)))"

definition intentsObjectUnderDeletion :: "ClientIntents \<Rightarrow> bool" where
  "intentsObjectUnderDeletion intents = (ci_DeletionTimestamp intents \<noteq> None)"

definition handleIntentsDeletion ::
  "KafkaACLReconciler \<Rightarrow> ClientIntents \<Rightarrow> ClientIntentsSpec \<Rightarrow> kafka_env \<Rightarrow> (Result \<times> go_error option) \<times> kafka_env" where
  "handleIntentsDeletion r intents spec env =
     (case RemoveACLs r intents spec env of
        (Some e, env1) \<Rightarrow>
          ((\<lparr>Requeue = False\<rparr>, Some e), RecordWarningEvent intents ReasonRemovingKafkaACLsFailed env1)
      | (None, env1) \<Rightarrow> ((\<lparr>Requeue = False\<rparr>, None), env1))"

definition KafkaACLReconciler_Reconcile ::
  "KafkaACLReconciler \<Rightarrow> NamespacedName \<Rightarrow> kafka_env \<Rightarrow> (Result \<times> go_error option) \<times> kafka_env" where
  "KafkaACLReconciler_Reconcile r req env =
     (case clientGetClientIntents req env of
        ((err, got), env1) \<Rightarrow>
          (if err \<noteq> None \<and> IsNotFound err then ((\<lparr>Requeue = False\<rparr>, None), env1)
           else if err \<noteq> None then ((\<lparr>Requeue = False\<rparr>, err), env1)
           else (case got of
              None \<Rightarrow> ((\<lparr>Requeue = False\<rparr>, None), env1)
            | Some intents \<Rightarrow>
               (case ci_Spec intents of
                  None \<Rightarrow> ((\<lparr>Requeue = False\<rparr>, None), env1)
                | Some spec \<Rightarrow>
                    (if intentsObjectUnderDeletion intents then handleIntentsDeletion r intents spec env1
                     else (case isIntentsForTheIntentsOperator r intents spec env1 of
                             ((clientIsOperator, Some e), env2) \<Rightarrow> ((\<lparr>Requeue = False\<rparr>, Some e), env2)
                           | ((clientIsOperator, None), env2) \<Rightarrow>
                               (if clientIsOperator then ((\<lparr>Requeue = False\<rparr>, None), env2)
                                else (case applyAcls r intents spec env2 of
                                        ((result, Some e), env3) \<Rightarrow> ((result, Some e), env3)
                                      | ((result, None), env3) \<Rightarrow> ((\<lparr>Requeue = False\<rparr>, None), env3)))))))))"

section \<open>The admission webhook of protected services\<close>

record ProtectedService =
  ps_Name :: string
  ps_Namespace :: string
  ps_SpecName :: string

datatype ErrorType = ErrorTypeDuplicate | ErrorTypeForbidden

record FieldError =
  fe_Type :: ErrorType
  fe_Field :: string
  fe_BadValue :: string
  fe_Detail :: string

text \<open>
  What a validation returns besides \<open>nil\<close>: the error of the list call, or the
  ``invalid'' status error built by \<open>errors.NewInvalid\<close> from the name of the object and
  the field errors.
\<close>

datatype admission_error = ListFailed go_error | Invalid string "FieldError list"

text \<open>The validator's client: the stored declarations and the error of \<open>List\<close>, if any.\<close>

record validator_client =
  protectedServiceObjs :: "ProtectedService list"
  listFault :: "go_error option"

definition listProtectedServices :: "validator_client \<Rightarrow> string \<Rightarrow> go_error + ProtectedService list" where
  "listProtectedServices v namespace =
     (case listFault v of
        Some e \<Rightarrow> Inl e
      | None \<Rightarrow> Inr (filter (\<lambda>x. ps_Namespace x = namespace) (protectedServiceObjs v)))"

subsection \<open>Library functions on strings\<close>

text \<open>\<open>strings.ReplaceAll\<close> with a one-character pattern and the empty replacement.\<close>

definition removeAll :: "string \<Rightarrow> char \<Rightarrow> string" where
  "removeAll s old = filter (\<lambda>c. c \<noteq> old) s"

definition isAlphanumericChar :: "char \<Rightarrow> bool" where
  "isAlphanumericChar c =
     (let n = (of_char c :: nat)
      in (48 \<le> n \<and> n \<le> 57) \<or> (65 \<le> n \<and> n \<le> 90) \<or> (97 \<le> n \<and> n \<le> 122))"

definition toLowerChar :: "char \<Rightarrow> char" where
  "toLowerChar c = (let n = (of_char c :: nat) in if 65 \<le> n \<and> n \<le> 90 then char_of (n + 32) else c)"

text \<open>
  \<open>govalidator.IsAlphanumeric\<close> and \<open>govalidator.IsLowerCase\<close>: both accept the empty
  string; the first matches \<open>^[a-zA-Z0-9]+$\<close>, the second compares the string with its
  lower-case form. \<open>validateSpec\<close> evaluates \<open>IsLowerCase\<close> only on a string that
  \<open>IsAlphanumeric\<close> has accepted (the operator \<open>||\<close> stops at the first true operand), so
  only ASCII letters are ever lowered here.
\<close>

definition IsAlphanumeric :: "string \<Rightarrow> bool" where
  "IsAlphanumeric str = (if str = [] then True else list_all isAlphanumericChar str)"

definition IsLowerCase :: "string \<Rightarrow> bool" where
  "IsLowerCase str = (if str = [] then True else str = map toLowerChar str)"

subsection \<open>Validation\<close>

definition validateNoDuplicateClients :: "ProtectedService \<Rightarrow> ProtectedService list \<Rightarrow> FieldError option" where
  "validateNoDuplicateClients protectedService protectedServicesList =
     (let protectedServiceName = ps_SpecName protectedService in
      case find (\<lambda>protectedServiceFromList.
                   ps_SpecName protectedServiceFromList = protectedServiceName
                   \<and> ps_Name protectedServiceFromList \<noteq> ps_SpecName protectedService)
                protectedServicesList of
        None \<Rightarrow> None
      | Some protectedServiceFromList \<Rightarrow>
          Some \<lparr>fe_Type = ErrorTypeDuplicate, fe_Field = ''name'', fe_BadValue = protectedServiceName,
                fe_Detail = Sprintf ''Protected service for service %s already exist in resource %s''
                              [protectedServiceName, ps_Name protectedServiceFromList]\<rparr>)"

definition invalidNameTemplate :: string where
  "invalidNameTemplate =
     ''Invalid Name: %s. Service name must contain only lowercase alphanumeric characters, ''
     @ [CHR 0x27] @ ''-'' @ [CHR 0x27] @ '' or '' @ [CHR 0x27] @ ''_'' @ [CHR 0x27]"

definition validateSpec :: "ProtectedService \<Rightarrow> FieldError option" where
  "validateSpec protectedService =
     (let serviceName = removeAll (removeAll (ps_SpecName protectedService) (CHR ''-'')) (CHR ''_'') in
      if \<not> IsAlphanumeric serviceName \<or> \<not> IsLowerCase serviceName then
        Some \<lparr>fe_Type = ErrorTypeForbidden, fe_Field = ''Name'', fe_BadValue = [],
              fe_Detail = Sprintf invalidNameTemplate [ps_SpecName protectedService]\<rparr>
      else None)"

definition ValidateCreate :: "validator_client \<Rightarrow> ProtectedService \<Rightarrow> admission_error option" where
  "ValidateCreate v protectedService =
     (case listProtectedServices v (ps_Namespace protectedService) of
        Inl e \<Rightarrow> Some (ListFailed e)
      | Inr protectedServicesList \<Rightarrow>
          (let allErrs = (case validateNoDuplicateClients protectedService protectedServicesList of
                            None \<Rightarrow> [] | Some e \<Rightarrow> [e])
                         @ (case validateSpec protectedService of None \<Rightarrow> [] | Some e \<Rightarrow> [e])
           in if length allErrs = 0 then None
              else Some (Invalid (ps_Name protectedService) allErrs)))"

definition ValidateUpdate :: "validator_client \<Rightarrow> ProtectedService \<Rightarrow> ProtectedService \<Rightarrow> admission_error option" where
  "ValidateUpdate v oldObj newObj =
     (case listProtectedServices v (ps_Namespace newObj) of
        Inl e \<Rightarrow> Some (ListFailed e)
      | Inr protectedServicesList \<Rightarrow>
          (let allErrs = (case validateNoDuplicateClients newObj protectedServicesList of
                            None \<Rightarrow> [] | Some e \<Rightarrow> [e])
                         @ (case validateSpec newObj of None \<Rightarrow> [] | Some e \<Rightarrow> [e])
           in if length allErrs = 0 then None
              else Some (Invalid (ps_Name newObj) allErrs)))"

section \<open>Example inputs\<close>

subsection \<open>Clusters for the network policy reconciler\<close>

definition exampleCall :: Intent where
  "exampleCall = \<lparr>intent_Server = ''server'', intent_Namespace = []\<rparr>"

definition exampleSpec :: IntentsSpec where
  "exampleSpec = \<lparr>spec_ServiceName = ''client'', spec_Calls = [exampleCall]\<rparr>"

definition terminatingIntents :: Intents where
  "terminatingIntents = \<lparr>intents_Name = ''client-intents'', intents_Namespace = ''ns1'',
     intents_Spec = Some exampleSpec, intents_DeletionTimestamp = Some 1,
     intents_Finalizers = [NetworkPolicyFinalizerName]\<rparr>"

definition otherIntents :: Intents where
  "otherIntents = \<lparr>intents_Name = ''other-intents'', intents_Namespace = ''ns1'',
     intents_Spec = Some exampleSpec, intents_DeletionTimestamp = None,
     intents_Finalizers = [NetworkPolicyFinalizerName]\<rparr>"

definition speclessIntents :: Intents where
  "speclessIntents = \<lparr>intents_Name = ''client-intents'', intents_Namespace = ''ns1'',
     intents_Spec = None, intents_DeletionTimestamp = None, intents_Finalizers = []\<rparr>"

definition examplePolicy :: NetworkPolicy where
  "examplePolicy = \<lparr>policy_Name = ''access-to-server-from-ns1'', policy_Namespace = ''ns1'',
     policy_Labels = [(''otterize/network-policy'', ''true'')],
     policy_TargetServer = (''server'', ''ns1''), policy_FromNamespace = ''ns1''\<rparr>"

definition noFaults :: "client_op list \<Rightarrow> client_op \<Rightarrow> go_error option" where
  "noFaults past op = None"

definition deleteForbidden :: "client_op list \<Rightarrow> client_op \<Rightarrow> go_error option" where
  "deleteForbidden past op = (case op of DeletePolicy k \<Rightarrow> Some (StatusError Forbidden) | _ \<Rightarrow> None)"

definition updateConflict :: "client_op list \<Rightarrow> client_op \<Rightarrow> go_error option" where
  "updateConflict past op = (case op of UpdateIntents obj \<Rightarrow> Some (StatusError Conflict) | _ \<Rightarrow> None)"

definition clusterOf ::
  "Intents list \<Rightarrow> NetworkPolicy list \<Rightarrow> (client_op list \<Rightarrow> client_op \<Rightarrow> go_error option) \<Rightarrow> cluster" where
  "clusterOf objs policies plan = \<lparr>intentsObjs = objs, policyObjs = policies, faults = plan, calls = []\<rparr>"

subsection \<open>Environments for the Kafka ACL reconciler\<close>

definition exampleTopic :: KafkaTopic where
  "exampleTopic = \<lparr>topic_Name = ''orders'', topic_Operations = [''consume'']\<rparr>"

definition kafkaCall :: Call where
  "kafkaCall = \<lparr>call_Name = ''kafka'', call_Namespace = [], call_Type = IntentTypeKafka,
     call_Topics = [exampleTopic]\<rparr>"

definition kafkaSpec :: ClientIntentsSpec where
  "kafkaSpec = \<lparr>cspec_ServiceName = ''client'', cspec_Calls = [kafkaCall]\<rparr>"

definition activeClientIntents :: ClientIntents where
  "activeClientIntents = \<lparr>ci_Name = ''client-intents'', ci_Namespace = ''ns1'',
     ci_Spec = Some kafkaSpec, ci_DeletionTimestamp = None\<rparr>"

definition terminatingClientIntents :: ClientIntents where
  "terminatingClientIntents = \<lparr>ci_Name = ''client-intents'', ci_Namespace = ''ns1'',
     ci_Spec = Some kafkaSpec, ci_DeletionTimestamp = Some 1\<rparr>"

definition speclessClientIntents :: ClientIntents where
  "speclessClientIntents = \<lparr>ci_Name = ''client-intents'', ci_Namespace = ''ns1'',
     ci_Spec = None, ci_DeletionTimestamp = None\<rparr>"

definition operatorInNs1 :: KafkaACLReconciler where
  "operatorInNs1 = \<lparr>enforcementDefaultState = False, enableKafkaACLCreation = True,
     operatorPodName = ''intents-operator'', operatorPodNamespace = ''ns1''\<rparr>"

definition operatorElsewhere :: KafkaACLReconciler where
  "operatorElsewhere = \<lparr>enforcementDefaultState = False, enableKafkaACLCreation = True,
     operatorPodName = ''intents-operator'', operatorPodNamespace = ''otterize-system''\<rparr>"

definition twoBrokers :: "(NamespacedName \<times> KafkaServerConfig) list" where
  "twoBrokers = [((''ns1'', ''kafka''), \<lparr>config_Addr = ''kafka:9092''\<rparr>),
                 ((''ns1'', ''kafka2''), \<lparr>config_Addr = ''kafka2:9092''\<rparr>)]"

definition clientGrant :: "NamespacedName \<times> ACL" where
  "clientGrant = ((''ns1'', ''kafka''), (''client'', ''ns1''), ''orders'', ''consume'')"

definition kNoFaults :: "kafka_op list \<Rightarrow> kafka_op \<Rightarrow> go_error option" where
  "kNoFaults past op = None"

definition resolverFails :: "kafka_op list \<Rightarrow> kafka_op \<Rightarrow> go_error option" where
  "resolverFails past op =
     (case op of OpGetPodAnnotatedName pod ns \<Rightarrow> Some (StatusError InternalError) | _ \<Rightarrow> None)"

definition connectToKafkaFails :: "kafka_op list \<Rightarrow> kafka_op \<Rightarrow> go_error option" where
  "connectToKafkaFails past op =
     (case op of
        OpOpenAdmin server creation enforcement \<Rightarrow>
          (if server = (''ns1'', ''kafka'') then Some (PlainError ''connection refused'') else None)
      | _ \<Rightarrow> None)"

definition applyOnKafkaFails :: "kafka_op list \<Rightarrow> kafka_op \<Rightarrow> go_error option" where
  "applyOnKafkaFails past op =
     (case op of
        OpApplyClientIntents server clientName clientNamespace intents \<Rightarrow>
          (if server = (''ns1'', ''kafka'') then Some (PlainError ''not authorized'') else None)
      | _ \<Rightarrow> None)"

definition kafkaEnvOf ::
  "ClientIntents list \<Rightarrow> (NamespacedName \<times> ACL) list \<Rightarrow> (kafka_op list \<Rightarrow> kafka_op \<Rightarrow> go_error option)
   \<Rightarrow> kafka_env" where
  "kafkaEnvOf objs acls plan =
     \<lparr>clientIntentsObjs = objs, protectedServices = [], kafkaServers = twoBrokers,
      tlsSource = ''tls'', brokerACLs = acls, podAnnotatedNames = [], events = [],
      kfaults = plan, kcalls = []\<rparr>"

subsection \<open>Protection declarations for the webhook\<close>

definition storedDeclaration :: ProtectedService where
  "storedDeclaration = \<lparr>ps_Name = ''server'', ps_Namespace = ''ns1'', ps_SpecName = ''server''\<rparr>"

definition duplicateDeclaration :: ProtectedService where
  "duplicateDeclaration = \<lparr>ps_Name = ''server-again'', ps_Namespace = ''ns1'', ps_SpecName = ''server''\<rparr>"

definition renamedDeclaration :: ProtectedService where
  "renamedDeclaration = \<lparr>ps_Name = ''protect-server'', ps_Namespace = ''ns1'', ps_SpecName = ''server''\<rparr>"

section \<open>Vocabulary of the reference-counting claim\<close>

text \<open>
  The intent objects of a namespace whose target-server index holds a server, the key of
  the rule derived from a Call of an intent object, and whether the intent objects that
  reference the server of a Call are exactly one.
\<close>

definition referencingIntents :: "string \<Rightarrow> string \<Rightarrow> Intents list \<Rightarrow> Intents list" where
  "referencingIntents server ns objs =
     filter (\<lambda>obj. intents_Namespace obj = ns \<and> server \<in> set (targetServerIndex obj)) objs"

definition derivedRuleKey :: "Intents \<Rightarrow> Intent \<Rightarrow> NamespacedName" where
  "derivedRuleKey intents call =
     (if intent_Namespace call = [] then intents_Namespace intents else intent_Namespace call,
      policyNameFor (intent_Server call) (intents_Namespace intents))"

definition lastReference :: "Intents \<Rightarrow> Intents list \<Rightarrow> Intent \<Rightarrow> bool" where
  "lastReference intents objs call =
     (length (referencingIntents (intent_Server call) (intents_Namespace intents) objs) = 1)"

section \<open>Properties of the network policy reconciler\<close>

lemmas client_defs = issue_def clientGetIntents_def clientGetPolicy_def clientCreatePolicy_def
  clientDeletePolicy_def clientListIntents_def clientUpdateIntents_def intentsKey_def policyKey_def
  targetServerIndex_def GetCallsList_def IsNotFound_def IsConflict_def ContainsFinalizer_def
  AddFinalizer_def RemoveFinalizer_def emptyPolicy_def Let_def

lemmas example_defs = exampleCall_def exampleSpec_def terminatingIntents_def otherIntents_def
  speclessIntents_def examplePolicy_def noFaults_def deleteForbidden_def updateConflict_def
  clusterOf_def NetworkPolicyFinalizerName_def

lemma policyNameFor_eq: "policyNameFor server ns = ''access-to-'' @ server @ ''-from-'' @ ns"
  by (simp add: policyNameFor_def OtterizeNetworkPolicyNameTemplate_def)

subsection \<open>Naming of the derived rule\<close>

text \<open>
  C7, as the code has it: the name of the rule for a Call is the template
  \<open>access-to-<target>-from-<namespace>\<close> filled with the target server and the declaring
  namespace, with nothing cut and no hash appended; its length is 16 plus the lengths of
  the two names.
\<close>

theorem policy_name_is_plain_template:
  "policyNameFor server ns = ''access-to-'' @ server @ ''-from-'' @ ns
   \<and> length (policyNameFor server ns) = 16 + length server + length ns"
  by (simp add: policyNameFor_eq)

text \<open>
  C7, as the claim states it, fails: for the long service name and namespace of the
  repository's own label tests the name is longer than 63 characters.
\<close>

theorem policy_name_exceeds_63:
  "\<not> length (policyNameFor ''test-client-with-a-very-long-name-more-than-20-characters''
                ''test-namespace-with-a-very-long-name-more-than-20-characters'') \<le> 63"
  by (simp add: policyNameFor_eq)

subsection \<open>Errors while removing a rule\<close>

text \<open>
  C2 at a failing input: the rule exists and the API server refuses its deletion. The
  claim wants the delete error returned; \<open>removeNetworkPolicy\<close> returns \<open>nil\<close> and the
  rule is still there.
\<close>

theorem removeNetworkPolicy_swallows_delete_error:
  "removeNetworkPolicy (exampleCall\<lparr>intent_Namespace := ''ns1''\<rparr>) ''ns1''
     (clusterOf [terminatingIntents] [examplePolicy] deleteForbidden)
   = (None, (clusterOf [terminatingIntents] [examplePolicy] deleteForbidden)
        \<lparr>calls := [GetPolicy (''ns1'', ''access-to-server-from-ns1''),
                   DeletePolicy (''ns1'', ''access-to-server-from-ns1'')]\<rparr>)"
  by (simp add: removeNetworkPolicy_def policyNameFor_eq client_defs example_defs)

subsection \<open>Order of finalizer and rule work\<close>

text \<open>
  What holds of the order of the calls. For an active intent object without the finalizer,
  the update that attaches it follows the lookup at once, no other update is issued, and
  no rule is looked up or created when that update fails. For a terminating intent object
  with the finalizer, the update that removes it is the last call, issued only when the
  loop over the Calls returned no error.
\<close>

lemma clientGetIntents_calls:
  "calls (snd (clientGetIntents req c)) = calls c @ [GetIntents req]
   \<and> faults (snd (clientGetIntents req c)) = faults c"
  by (simp add: clientGetIntents_def issue_def split: option.splits)

lemma handleNetworkPolicyCreation_calls:
  "\<exists>ops. calls (snd (handleNetworkPolicyCreation intent ns c)) = calls c @ ops
     \<and> (\<forall>obj. UpdateIntents obj \<notin> set ops)"
  by (auto simp: handleNetworkPolicyCreation_def clientGetPolicy_def clientCreatePolicy_def issue_def Let_def
        split: option.splits prod.splits)

lemma createPolicies_calls:
  "\<exists>ops. calls (snd (createPolicies xs ns c)) = calls c @ ops \<and> (\<forall>obj. UpdateIntents obj \<notin> set ops)"
proof (induction xs arbitrary: c)
  case Nil
  show ?case by simp
next
  case (Cons intent0 rest)
  define intent where "intent = (if intent_Namespace intent0 = []
                    then intent0\<lparr>intent_Namespace := ns\<rparr> else intent0)"
  define c1 where "c1 = snd (handleNetworkPolicyCreation intent ns c)"
  from handleNetworkPolicyCreation_calls [of intent ns c]
  obtain ops1 where o1: "calls c1 = calls c @ ops1" and u1: "\<forall>obj. UpdateIntents obj \<notin> set ops1"
    unfolding c1_def by blast
  from Cons.IH [of c1]
  obtain ops2 where o2: "calls (snd (createPolicies rest ns c1)) = calls c1 @ ops2"
    and u2: "\<forall>obj. UpdateIntents obj \<notin> set ops2"
    by blast
  have "snd (createPolicies (intent0 # rest) ns c) = c1
        \<or> snd (createPolicies (intent0 # rest) ns c) = snd (createPolicies rest ns c1)"
    unfolding c1_def intent_def
    by (simp add: Let_def split: prod.splits option.splits)
  then show ?case
  proof
    assume "snd (createPolicies (intent0 # rest) ns c) = c1"
    with o1 u1 show ?thesis by auto
  next
    assume "snd (createPolicies (intent0 # rest) ns c) = snd (createPolicies rest ns c1)"
    with o1 u1 o2 u2 have "calls (snd (createPolicies (intent0 # rest) ns c)) = calls c @ (ops1 @ ops2)
        \<and> (\<forall>obj. UpdateIntents obj \<notin> set (ops1 @ ops2))"
      by simp
    then show ?thesis by blast
  qed
qed

lemma finalizer_update_precedes_rule_work:
  assumes "clientGetIntents req c = ((None, Some intents), c1)"
      and "intents_Spec intents \<noteq> None"
      and "intents_DeletionTimestamp intents = None"
      and "\<not> ContainsFinalizer intents NetworkPolicyFinalizerName"
  shows "\<exists>ops. calls (snd (NetworkPolicyReconciler_Reconcile req c))
               = calls c @ GetIntents req # UpdateIntents (AddFinalizer intents NetworkPolicyFinalizerName) # ops
     \<and> (\<forall>obj. UpdateIntents obj \<notin> set ops)
     \<and> (fst (clientUpdateIntents (AddFinalizer intents NetworkPolicyFinalizerName) c1) \<noteq> None \<longrightarrow> ops = [])"
proof -
  define upd where "upd = clientUpdateIntents (AddFinalizer intents NetworkPolicyFinalizerName) c1"
  have c1: "calls c1 = calls c @ [GetIntents req]"
    using clientGetIntents_calls [of req c] assms(1) by simp
  have u: "calls (snd upd) = calls c @ [GetIntents req, UpdateIntents (AddFinalizer intents NetworkPolicyFinalizerName)]"
    by (simp add: upd_def clientUpdateIntents_def issue_def c1 split: option.splits)
  show ?thesis
  proof (cases "fst upd")
    case None
    then have "upd = (None, snd upd)" by (simp add: prod_eq_iff)
    then have r: "snd (NetworkPolicyReconciler_Reconcile req c)
                  = snd (createPolicies (GetCallsList intents) (fst req) (snd upd))"
      using assms unfolding upd_def
      by (auto simp: NetworkPolicyReconciler_Reconcile_def IsNotFound_def split: prod.splits option.splits)
    from createPolicies_calls [of "GetCallsList intents" "fst req" "snd upd"]
    obtain ops where "calls (snd (createPolicies (GetCallsList intents) (fst req) (snd upd))) = calls (snd upd) @ ops"
      and "\<forall>obj. UpdateIntents obj \<notin> set ops"
      by blast
    with None show ?thesis
      unfolding r upd_def [symmetric] by (simp add: u)
  next
    case (Some e)
    then have "upd = (Some e, snd upd)" by (simp add: prod_eq_iff)
    then have r: "snd (NetworkPolicyReconciler_Reconcile req c) = snd upd"
      using assms unfolding upd_def
      by (auto simp: NetworkPolicyReconciler_Reconcile_def IsNotFound_def split: prod.splits option.splits)
    show ?thesis
      unfolding r upd_def [symmetric] by (simp add: u)
  qed
qed

lemma removeNetworkPolicy_calls:
  "\<exists>ops. calls (snd (removeNetworkPolicy intent ns c)) = calls c @ ops
     \<and> (\<forall>obj. UpdateIntents obj \<notin> set ops)"
  by (auto simp: removeNetworkPolicy_def clientGetPolicy_def clientDeletePolicy_def issue_def Let_def
        split: option.splits prod.splits)

lemma cleanPolicies_calls:
  "\<exists>ops. calls (snd (cleanPolicies xs intents c)) = calls c @ ops \<and> (\<forall>obj. UpdateIntents obj \<notin> set ops)"
proof (induction xs arbitrary: c)
  case Nil
  show ?case by simp
next
  case (Cons intent0 rest)
  define intent where "intent = (if intent_Namespace intent0 = []
                 then intent0\<lparr>intent_Namespace := intents_Namespace intents\<rparr> else intent0)"
  define c1 where "c1 = snd (clientListIntents (intent_Server intent) (intents_Namespace intents) c)"
  define c2 where "c2 = snd (removeNetworkPolicy intent (intents_Namespace intents) c1)"
  have o1: "calls c1 = calls c @ [ListIntents (intent_Server intent) (intents_Namespace intents)]"
    by (simp add: c1_def clientListIntents_def issue_def split: option.splits)
  from removeNetworkPolicy_calls [of intent "intents_Namespace intents" c1]
  obtain ops2 where o2: "calls c2 = calls c1 @ ops2" and u2: "\<forall>obj. UpdateIntents obj \<notin> set ops2"
    unfolding c2_def by blast
  from Cons.IH [of c1]
  obtain opsA where oA: "calls (snd (cleanPolicies rest intents c1)) = calls c1 @ opsA"
    and uA: "\<forall>obj. UpdateIntents obj \<notin> set opsA"
    by blast
  from Cons.IH [of c2]
  obtain opsB where oB: "calls (snd (cleanPolicies rest intents c2)) = calls c2 @ opsB"
    and uB: "\<forall>obj. UpdateIntents obj \<notin> set opsB"
    by blast
  have "snd (cleanPolicies (intent0 # rest) intents c) = c1
        \<or> snd (cleanPolicies (intent0 # rest) intents c) = c2
        \<or> snd (cleanPolicies (intent0 # rest) intents c) = snd (cleanPolicies rest intents c1)
        \<or> snd (cleanPolicies (intent0 # rest) intents c) = snd (cleanPolicies rest intents c2)"
    unfolding c1_def c2_def intent_def
    by (simp add: Let_def split: prod.splits option.splits)
  then consider
      "snd (cleanPolicies (intent0 # rest) intents c) = c1"
    | "snd (cleanPolicies (intent0 # rest) intents c) = c2"
    | "snd (cleanPolicies (intent0 # rest) intents c) = snd (cleanPolicies rest intents c1)"
    | "snd (cleanPolicies (intent0 # rest) intents c) = snd (cleanPolicies rest intents c2)"
    by blast
  then show ?case
  proof cases
    case 1
    with o1 show ?thesis by auto
  next
    case 2
    with o1 o2 u2 have "calls (snd (cleanPolicies (intent0 # rest) intents c))
         = calls c @ (ListIntents (intent_Server intent) (intents_Namespace intents) # ops2)
        \<and> (\<forall>obj. UpdateIntents obj \<notin> set (ListIntents (intent_Server intent) (intents_Namespace intents) # ops2))"
      by simp
    then show ?thesis by blast
  next
    case 3
    with o1 oA uA have "calls (snd (cleanPolicies (intent0 # rest) intents c))
         = calls c @ (ListIntents (intent_Server intent) (intents_Namespace intents) # opsA)
        \<and> (\<forall>obj. UpdateIntents obj \<notin> set (ListIntents (intent_Server intent) (intents_Namespace intents) # opsA))"
      by simp
    then show ?thesis by blast
  next
    case 4
    with o1 o2 u2 oB uB have "calls (snd (cleanPolicies (intent0 # rest) intents c))
         = calls c @ (ListIntents (intent_Server intent) (intents_Namespace intents) # ops2 @ opsB)
        \<and> (\<forall>obj. UpdateIntents obj \<notin> set (ListIntents (intent_Server intent) (intents_Namespace intents) # ops2 @ opsB))"
      by simp
    then show ?thesis by blast
  qed
qed

lemma finalizer_removal_follows_rule_work:
  assumes "clientGetIntents req c = ((None, Some intents), c1)"
      and "intents_Spec intents \<noteq> None"
      and "intents_DeletionTimestamp intents \<noteq> None"
      and "ContainsFinalizer intents NetworkPolicyFinalizerName"
  shows "\<exists>ops. calls (snd (NetworkPolicyReconciler_Reconcile req c))
               = calls c @ GetIntents req # ops
                  @ (if fst (cleanPolicies (GetCallsList intents) intents c1) = None
                     then [UpdateIntents (RemoveFinalizer intents NetworkPolicyFinalizerName)] else [])
     \<and> (\<forall>obj. UpdateIntents obj \<notin> set ops)"
proof -
  define cp where "cp = cleanPolicies (GetCallsList intents) intents c1"
  have c1: "calls c1 = calls c @ [GetIntents req]"
    using clientGetIntents_calls [of req c] assms(1) by simp
  from cleanPolicies_calls [of "GetCallsList intents" intents c1]
  obtain ops where o: "calls (snd cp) = calls c1 @ ops" and u: "\<forall>obj. UpdateIntents obj \<notin> set ops"
    unfolding cp_def by blast
  have r: "snd (NetworkPolicyReconciler_Reconcile req c) = snd (cleanFinalizerAndPolicies intents c1)"
    using assms
    by (auto simp: NetworkPolicyReconciler_Reconcile_def IsNotFound_def split: prod.splits option.splits)
  have "calls (snd (cleanFinalizerAndPolicies intents c1))
        = calls (snd cp) @ (if fst cp = None
                     then [UpdateIntents (RemoveFinalizer intents NetworkPolicyFinalizerName)] else [])"
    using assms(2,4) unfolding cp_def
    by (auto simp: cleanFinalizerAndPolicies_def clientUpdateIntents_def issue_def
          split: prod.splits option.splits)
  then have "calls (snd (NetworkPolicyReconciler_Reconcile req c))
               = calls c @ GetIntents req # ops
                  @ (if fst cp = None
                     then [UpdateIntents (RemoveFinalizer intents NetworkPolicyFinalizerName)] else [])"
    by (simp add: r o c1)
  with u show ?thesis unfolding cp_def by blast
qed

text \<open>
  C3 at a failing input: a terminating intent object is the last one that references its
  server, and the deletion of the rule is refused. Reconcile still ends without error, its
  last call is the update that removes the finalizer, after which the API server removes
  the object, and the rule is still there: the finalizer is gone although the teardown did
  not succeed.
\<close>

theorem finalizer_removed_after_failed_delete:
  "NetworkPolicyReconciler_Reconcile (''ns1'', ''client-intents'')
     (clusterOf [terminatingIntents] [examplePolicy] deleteForbidden)
   = ((\<lparr>Requeue = False\<rparr>, None),
      \<lparr>intentsObjs = [],
       policyObjs = [examplePolicy],
       faults = deleteForbidden,
       calls = [GetIntents (''ns1'', ''client-intents''), ListIntents ''server'' ''ns1'',
                GetPolicy (''ns1'', ''access-to-server-from-ns1''),
                DeletePolicy (''ns1'', ''access-to-server-from-ns1''),
                UpdateIntents (terminatingIntents\<lparr>intents_Finalizers := []\<rparr>)]\<rparr>)"
  by (simp add: NetworkPolicyReconciler_Reconcile_def cleanFinalizerAndPolicies_def
        removeNetworkPolicy_def policyNameFor_eq client_defs example_defs)

subsection \<open>Conflicts are retried\<close>

text \<open>
  C9: when the intent object is found, has a Spec and is terminating, and its cleanup
  fails with a conflict error, Reconcile returns a result that asks for a requeue,
  together with no error.
\<close>

theorem conflict_in_cleanup_requeues:
  assumes "clientGetIntents req c = ((None, Some intents), c1)"
      and "intents_Spec intents \<noteq> None"
      and "intents_DeletionTimestamp intents \<noteq> None"
      and "cleanFinalizerAndPolicies intents c1 = (Some e, c2)"
      and "IsConflict (Some e)"
  shows "NetworkPolicyReconciler_Reconcile req c = ((\<lparr>Requeue = True\<rparr>, None), c2)"
  using assms by (simp add: NetworkPolicyReconciler_Reconcile_def IsNotFound_def)

theorem conflict_in_cleanup_requeues_witness:
  "clientGetIntents (''ns1'', ''client-intents'') (clusterOf [terminatingIntents] [] updateConflict)
     = ((None, Some terminatingIntents),
        snd (clientGetIntents (''ns1'', ''client-intents'') (clusterOf [terminatingIntents] [] updateConflict)))
   \<and> intents_Spec terminatingIntents \<noteq> None
   \<and> intents_DeletionTimestamp terminatingIntents \<noteq> None
   \<and> fst (cleanFinalizerAndPolicies terminatingIntents
        (snd (clientGetIntents (''ns1'', ''client-intents'') (clusterOf [terminatingIntents] [] updateConflict))))
     = Some (StatusError Conflict)
   \<and> IsConflict (Some (StatusError Conflict))
   \<and> NetworkPolicyReconciler_Reconcile (''ns1'', ''client-intents'')
        (clusterOf [terminatingIntents] [] updateConflict)
     = ((\<lparr>Requeue = True\<rparr>, None),
        snd (cleanFinalizerAndPolicies terminatingIntents
          (snd (clientGetIntents (''ns1'', ''client-intents'') (clusterOf [terminatingIntents] [] updateConflict)))))"
proof -
  let ?c = "clusterOf [terminatingIntents] [] updateConflict"
  let ?c1 = "snd (clientGetIntents (''ns1'', ''client-intents'') ?c)"
  let ?c2 = "snd (cleanFinalizerAndPolicies terminatingIntents ?c1)"
  have h1: "clientGetIntents (''ns1'', ''client-intents'') ?c = ((None, Some terminatingIntents), ?c1)"
    by (simp add: client_defs example_defs)
  have h2: "intents_Spec terminatingIntents \<noteq> None"
    by (simp add: example_defs)
  have h3: "intents_DeletionTimestamp terminatingIntents \<noteq> None"
    by (simp add: example_defs)
  have h4f: "fst (cleanFinalizerAndPolicies terminatingIntents ?c1) = Some (StatusError Conflict)"
    by (simp add: cleanFinalizerAndPolicies_def removeNetworkPolicy_def policyNameFor_eq
          client_defs example_defs)
  have h4: "cleanFinalizerAndPolicies terminatingIntents ?c1 = (Some (StatusError Conflict), ?c2)"
    using h4f by (simp add: prod_eq_iff)
  have h5: "IsConflict (Some (StatusError Conflict))"
    by (simp add: IsConflict_def)
  from conflict_in_cleanup_requeues [OF h1 h2 h3 h4 h5] h1 h2 h3 h4f h5
  show ?thesis by (intro conjI) (assumption+)
qed

subsection \<open>Reference counting of derived rules\<close>

lemma issue_no_fault:
  "\<forall>past op. faults c past op = None \<Longrightarrow> issue op c = (None, c\<lparr>calls := calls c @ [op]\<rparr>)"
  by (simp add: issue_def)

lemma find_None_filter: "find P xs = None \<Longrightarrow> filter (\<lambda>x. \<not> P x) xs = xs"
  by (induction xs) (auto split: if_splits)

lemma removeNetworkPolicy_no_fault:
  assumes "\<forall>past op. faults c past op = None"
  shows "fst (removeNetworkPolicy intent ns c) = None"
    and "policyObjs (snd (removeNetworkPolicy intent ns c))
         = filter (\<lambda>q. policyKey q \<noteq> (intent_Namespace intent, policyNameFor (intent_Server intent) ns)) (policyObjs c)"
    and "intentsObjs (snd (removeNetworkPolicy intent ns c)) = intentsObjs c"
    and "faults (snd (removeNetworkPolicy intent ns c)) = faults c"
proof -
  let ?k = "(intent_Namespace intent, policyNameFor (intent_Server intent) ns)"
  show "fst (removeNetworkPolicy intent ns c) = None"
    by (simp add: removeNetworkPolicy_def Let_def split: prod.splits option.splits)
  show "intentsObjs (snd (removeNetworkPolicy intent ns c)) = intentsObjs c"
    by (auto simp: removeNetworkPolicy_def Let_def clientGetPolicy_def clientDeletePolicy_def issue_def
          split: prod.splits option.splits if_splits)
  show "faults (snd (removeNetworkPolicy intent ns c)) = faults c"
    by (auto simp: removeNetworkPolicy_def Let_def clientGetPolicy_def clientDeletePolicy_def issue_def
          split: prod.splits option.splits if_splits)
  show "policyObjs (snd (removeNetworkPolicy intent ns c)) = filter (\<lambda>q. policyKey q \<noteq> ?k) (policyObjs c)"
  proof (cases "find (\<lambda>p. policyKey p = ?k) (policyObjs c)")
    case None
    then have "filter (\<lambda>q. policyKey q \<noteq> ?k) (policyObjs c) = policyObjs c"
      by (rule find_None_filter)
    with None assms show ?thesis
      by (simp add: removeNetworkPolicy_def Let_def clientGetPolicy_def issue_no_fault IsNotFound_def)
  next
    case (Some p)
    then have k: "policyKey p = ?k" and mem: "p \<in> set (policyObjs c)"
      by (auto simp: find_Some_iff)
    have ne: "policy_Name p \<noteq> []"
      using k by (simp add: policyKey_def policyNameFor_eq)
    from mem k have "?k \<in> policyKey ` set (policyObjs c)" by force
    with Some assms k ne show ?thesis
      by (simp add: removeNetworkPolicy_def Let_def clientGetPolicy_def clientDeletePolicy_def
            issue_no_fault IsNotFound_def)
  qed
qed

lemma cleanPolicies_no_fault:
  assumes "\<forall>past op. faults c past op = None"
  shows "fst (cleanPolicies calls0 intents c) = None
     \<and> policyObjs (snd (cleanPolicies calls0 intents c))
         = filter (\<lambda>p. policyKey p \<notin> set (map (derivedRuleKey intents)
                      (filter (lastReference intents (intentsObjs c)) calls0))) (policyObjs c)
     \<and> intentsObjs (snd (cleanPolicies calls0 intents c)) = intentsObjs c
     \<and> faults (snd (cleanPolicies calls0 intents c)) = faults c"
  using assms
proof (induction calls0 arbitrary: c)
  case Nil
  then show ?case by simp
next
  case (Cons intent0 rest)
  define intent where "intent = (if intent_Namespace intent0 = []
                 then intent0\<lparr>intent_Namespace := intents_Namespace intents\<rparr> else intent0)"
  define ns where "ns = intents_Namespace intents"
  define c1 where "c1 = c\<lparr>calls := calls c @ [ListIntents (intent_Server intent) ns]\<rparr>"
  define c2 where "c2 = snd (removeNetworkPolicy intent ns c1)"
  have unfold: "cleanPolicies (intent0 # rest) intents c =
     (case clientListIntents (intent_Server intent) ns c of
        ((Some e, intentsList), c1) \<Rightarrow> (Some e, c1)
      | ((None, intentsList), c1) \<Rightarrow>
          (if length intentsList = 1 then
             (case removeNetworkPolicy intent ns c1 of
                (Some e, c2) \<Rightarrow> (Some e, c2)
              | (None, c2) \<Rightarrow> cleanPolicies rest intents c2)
           else cleanPolicies rest intents c1))"
    unfolding intent_def ns_def by (simp only: cleanPolicies.simps Let_def)
  have srv: "intent_Server intent = intent_Server intent0"
    by (simp add: intent_def)
  have nf1: "\<forall>past op. faults c1 past op = None"
    using Cons.prems by (simp add: c1_def)
  have list: "clientListIntents (intent_Server intent) ns c
        = ((None, referencingIntents (intent_Server intent0) ns (intentsObjs c)), c1)"
    using Cons.prems by (simp add: clientListIntents_def issue_no_fault referencingIntents_def c1_def srv)
  have key: "(intent_Namespace intent, policyNameFor (intent_Server intent) ns)
        = derivedRuleKey intents intent0"
    by (simp add: derivedRuleKey_def intent_def ns_def)
  have objs1: "intentsObjs c1 = intentsObjs c" and pol1: "policyObjs c1 = policyObjs c"
    by (simp_all add: c1_def)
  show ?case
  proof (cases "lastReference intents (intentsObjs c) intent0")
    case True
    note rm = removeNetworkPolicy_no_fault [OF nf1, of intent ns]
    have rm1: "removeNetworkPolicy intent ns c1 = (None, c2)"
      using rm(1) by (simp add: c2_def prod_eq_iff)
    have nf2: "\<forall>past op. faults c2 past op = None"
      using rm(4) nf1 by (simp add: c2_def)
    have lr: "length (referencingIntents (intent_Server intent0) ns (intentsObjs c)) = 1"
      using True by (simp add: lastReference_def ns_def)
    have step: "cleanPolicies (intent0 # rest) intents c = cleanPolicies rest intents c2"
      using lr by (subst unfold) (simp add: list rm1 del: cleanPolicies.simps)
    have objs2: "intentsObjs c2 = intentsObjs c"
      using rm(3) objs1 by (simp add: c2_def)
    have pol2: "policyObjs c2 = filter (\<lambda>q. policyKey q \<noteq> derivedRuleKey intents intent0) (policyObjs c)"
      using rm(2) key pol1 by (simp add: c2_def)
    have fl2: "faults c2 = faults c"
      using rm(4) by (simp add: c2_def c1_def)
    from Cons.IH [OF nf2] True show ?thesis
      unfolding step by (auto simp: objs2 pol2 fl2 intro!: filter_cong)
  next
    case False
    have lr: "length (referencingIntents (intent_Server intent0) ns (intentsObjs c)) \<noteq> 1"
      using False by (simp add: lastReference_def ns_def)
    have step: "cleanPolicies (intent0 # rest) intents c = cleanPolicies rest intents c1"
      using lr by (subst unfold) (simp add: list del: cleanPolicies.simps)
    have fl1: "faults c1 = faults c" by (simp add: c1_def)
    from Cons.IH [OF nf1] False show ?thesis
      unfolding step by (simp add: objs1 pol1 fl1)
  qed
qed

lemma derivedRuleKey_server:
  "derivedRuleKey intents a = derivedRuleKey intents b \<Longrightarrow> intent_Server a = intent_Server b"
  by (simp add: derivedRuleKey_def policyNameFor_eq split: if_splits)

lemma lastReference_server:
  "intent_Server a = intent_Server b \<Longrightarrow> lastReference intents objs a = lastReference intents objs b"
  by (simp add: lastReference_def)

text \<open>With any failure plan: the loop over the Calls creates no rule, leaves the intent
  objects alone, and every rule it removes is derived from a Call that is a last reference.\<close>

lemma removeNetworkPolicy_any:
  "intentsObjs (snd (removeNetworkPolicy intent ns c)) = intentsObjs c
   \<and> (policyObjs (snd (removeNetworkPolicy intent ns c)) = policyObjs c
      \<or> policyObjs (snd (removeNetworkPolicy intent ns c))
          = filter (\<lambda>q. policyKey q \<noteq> (intent_Namespace intent, policyNameFor (intent_Server intent) ns))
                   (policyObjs c))"
  by (auto simp: removeNetworkPolicy_def clientGetPolicy_def clientDeletePolicy_def issue_def Let_def
        emptyPolicy_def find_Some_iff
        split: option.splits prod.splits)

lemma cleanPolicies_any:
  "intentsObjs (snd (cleanPolicies xs intents c)) = intentsObjs c
   \<and> set (policyObjs (snd (cleanPolicies xs intents c))) \<subseteq> set (policyObjs c)
   \<and> (\<forall>p \<in> set (policyObjs c).
         policyKey p \<notin> set (map (derivedRuleKey intents) (filter (lastReference intents (intentsObjs c)) xs))
         \<longrightarrow> p \<in> set (policyObjs (snd (cleanPolicies xs intents c))))"
proof (induction xs arbitrary: c)
  case Nil
  show ?case by simp
next
  case (Cons intent0 rest)
  define intent where "intent = (if intent_Namespace intent0 = []
                 then intent0\<lparr>intent_Namespace := intents_Namespace intents\<rparr> else intent0)"
  define ns where "ns = intents_Namespace intents"
  define c1 where "c1 = c\<lparr>calls := calls c @ [ListIntents (intent_Server intent) ns]\<rparr>"
  define c2 where "c2 = snd (removeNetworkPolicy intent ns c1)"
  have unfold: "cleanPolicies (intent0 # rest) intents c =
     (case clientListIntents (intent_Server intent) ns c of
        ((Some e, intentsList), c1) \<Rightarrow> (Some e, c1)
      | ((None, intentsList), c1) \<Rightarrow>
          (if length intentsList = 1 then
             (case removeNetworkPolicy intent ns c1 of
                (Some e, c2) \<Rightarrow> (Some e, c2)
              | (None, c2) \<Rightarrow> cleanPolicies rest intents c2)
           else cleanPolicies rest intents c1))"
    unfolding intent_def ns_def by (simp only: cleanPolicies.simps Let_def)
  have srv: "intent_Server intent = intent_Server intent0"
    by (simp add: intent_def)
  have key: "(intent_Namespace intent, policyNameFor (intent_Server intent) ns)
        = derivedRuleKey intents intent0"
    by (simp add: derivedRuleKey_def intent_def ns_def)
  have objs1: "intentsObjs c1 = intentsObjs c" and pol1: "policyObjs c1 = policyObjs c"
    by (simp_all add: c1_def)
  have objs2: "intentsObjs c2 = intentsObjs c"
    using removeNetworkPolicy_any [of intent ns c1] objs1 by (simp add: c2_def)
  have pol2: "policyObjs c2 = policyObjs c
      \<or> policyObjs c2 = filter (\<lambda>q. policyKey q \<noteq> derivedRuleKey intents intent0) (policyObjs c)"
    using removeNetworkPolicy_any [of intent ns c1] pol1 key by (simp add: c2_def)
  have list: "(\<exists>e. clientListIntents (intent_Server intent) ns c = ((Some e, []), c1))
      \<or> clientListIntents (intent_Server intent) ns c
          = ((None, referencingIntents (intent_Server intent0) ns (intentsObjs c)), c1)"
    by (simp add: clientListIntents_def issue_def referencingIntents_def c1_def srv split: option.splits)
  have "snd (cleanPolicies (intent0 # rest) intents c) = c1
    \<or> (lastReference intents (intentsObjs c) intent0
         \<and> (snd (cleanPolicies (intent0 # rest) intents c) = c2
            \<or> snd (cleanPolicies (intent0 # rest) intents c) = snd (cleanPolicies rest intents c2)))
    \<or> (\<not> lastReference intents (intentsObjs c) intent0
         \<and> snd (cleanPolicies (intent0 # rest) intents c) = snd (cleanPolicies rest intents c1))"
    using list unfolding c2_def
    by (subst (1 2 3 4) unfold)
       (auto simp: lastReference_def ns_def split: prod.splits option.splits simp del: cleanPolicies.simps)
  then consider
      (failed) "snd (cleanPolicies (intent0 # rest) intents c) = c1"
    | (removed) "lastReference intents (intentsObjs c) intent0"
        "snd (cleanPolicies (intent0 # rest) intents c) = c2
         \<or> snd (cleanPolicies (intent0 # rest) intents c) = snd (cleanPolicies rest intents c2)"
    | (kept) "\<not> lastReference intents (intentsObjs c) intent0"
        "snd (cleanPolicies (intent0 # rest) intents c) = snd (cleanPolicies rest intents c1)"
    by blast
  then show ?case
  proof cases
    case failed
    then show ?thesis by (simp add: objs1 pol1 del: cleanPolicies.simps)
  next
    case removed
    have sub2: "set (policyObjs c2) \<subseteq> set (policyObjs c)"
      using pol2 by auto
    have keep2: "\<forall>p \<in> set (policyObjs c). policyKey p \<noteq> derivedRuleKey intents intent0 \<longrightarrow> p \<in> set (policyObjs c2)"
      using pol2 by auto
    from removed(2) show ?thesis
    proof
      assume "snd (cleanPolicies (intent0 # rest) intents c) = c2"
      with removed(1) sub2 keep2 objs2 show ?thesis
        by (auto simp del: cleanPolicies.simps)
    next
      assume r: "snd (cleanPolicies (intent0 # rest) intents c) = snd (cleanPolicies rest intents c2)"
      from Cons.IH [of c2] removed(1) sub2 keep2 objs2 show ?thesis
        unfolding r by (auto simp del: cleanPolicies.simps)
    qed
  next
    case kept
    from Cons.IH [of c1] kept(1) show ?thesis
      unfolding kept(2) by (auto simp: objs1 pol1 simp del: cleanPolicies.simps)
  qed
qed

text \<open>What Reconcile does with a terminating intent object that has a Spec.\<close>

lemma clientGetIntents_found:
  assumes "clientGetIntents req c = ((None, Some intents), c1)"
  shows "c1 = c\<lparr>calls := calls c @ [GetIntents req]\<rparr>"
    and "intentsKey intents \<in> set (map intentsKey (intentsObjs c))"
  using assms
  by (auto simp: clientGetIntents_def issue_def find_Some_iff split: option.splits)

lemma terminating_reconcile_is_cleanup:
  assumes "clientGetIntents req c = ((None, Some intents), c1)"
      and "intents_Spec intents \<noteq> None"
      and "intents_DeletionTimestamp intents \<noteq> None"
  shows "snd (NetworkPolicyReconciler_Reconcile req c) = snd (cleanFinalizerAndPolicies intents c1)"
    and "fst (cleanFinalizerAndPolicies intents c1) = None
         \<Longrightarrow> fst (NetworkPolicyReconciler_Reconcile req c) = (\<lparr>Requeue = False\<rparr>, None)"
  using assms
  by (auto simp: NetworkPolicyReconciler_Reconcile_def IsNotFound_def split: prod.splits option.splits)

lemma cleanFinalizerAndPolicies_policyObjs:
  assumes "ContainsFinalizer intents NetworkPolicyFinalizerName"
      and "intents_Spec intents \<noteq> None"
  shows "policyObjs (snd (cleanFinalizerAndPolicies intents c))
         = policyObjs (snd (cleanPolicies (GetCallsList intents) intents c))"
  using assms
  by (auto simp: cleanFinalizerAndPolicies_def clientUpdateIntents_def issue_def
        split: prod.splits option.splits)

lemma cleanFinalizerAndPolicies_no_fault:
  assumes "\<forall>past op. faults c past op = None"
      and "ContainsFinalizer intents NetworkPolicyFinalizerName"
      and "intents_Spec intents \<noteq> None"
      and "intentsKey intents \<in> set (map intentsKey (intentsObjs c))"
  shows "fst (cleanFinalizerAndPolicies intents c) = None"
proof -
  note cp = cleanPolicies_no_fault [OF assms(1), of "GetCallsList intents" intents]
  define c1 where "c1 = snd (cleanPolicies (GetCallsList intents) intents c)"
  have cp1: "cleanPolicies (GetCallsList intents) intents c = (None, c1)"
    using cp by (simp add: c1_def prod_eq_iff)
  have "faults c1 = faults c" and "intentsObjs c1 = intentsObjs c"
    using cp by (simp_all add: c1_def)
  with assms(1,4) have "fst (clientUpdateIntents (RemoveFinalizer intents NetworkPolicyFinalizerName) c1) = None"
    by (simp add: clientUpdateIntents_def issue_def intentsKey_def RemoveFinalizer_def)
  with assms(2,3) cp1 show ?thesis
    by (auto simp: cleanFinalizerAndPolicies_def split: prod.splits option.splits)
qed

text \<open>
  C1: Reconcile of a terminating intent object that is found, has a Spec and carries the
  network-policy finalizer. Whatever the API server answers, no rule is created and a
  rule survives unless it is derived from a Call whose server is referenced by exactly one
  intent object of the declaring namespace. When the API server answers every call,
  Reconcile succeeds and the rules left are exactly the rules of before without those
  derived from such a Call: the rule derived from a Call is deleted if and only if the
  intent objects that reference its server are exactly one.
\<close>

theorem rule_deleted_iff_last_reference:
  assumes "clientGetIntents req c = ((None, Some intents), c1)"
      and "intents_Spec intents \<noteq> None"
      and "intents_DeletionTimestamp intents \<noteq> None"
      and "ContainsFinalizer intents NetworkPolicyFinalizerName"
  shows "set (policyObjs (snd (NetworkPolicyReconciler_Reconcile req c))) \<subseteq> set (policyObjs c)
       \<and> (\<forall>p \<in> set (policyObjs c).
             policyKey p \<notin> set (map (derivedRuleKey intents)
                               (filter (lastReference intents (intentsObjs c)) (GetCallsList intents)))
             \<longrightarrow> p \<in> set (policyObjs (snd (NetworkPolicyReconciler_Reconcile req c))))
       \<and> ((\<forall>past op. faults c past op = None) \<longrightarrow>
             fst (NetworkPolicyReconciler_Reconcile req c) = (\<lparr>Requeue = False\<rparr>, None)
           \<and> policyObjs (snd (NetworkPolicyReconciler_Reconcile req c))
               = filter (\<lambda>p. policyKey p \<notin> set (map (derivedRuleKey intents)
                            (filter (lastReference intents (intentsObjs c)) (GetCallsList intents))))
                        (policyObjs c)
           \<and> (\<forall>call \<in> set (GetCallsList intents). \<forall>p \<in> set (policyObjs c).
                 policyKey p = derivedRuleKey intents call \<longrightarrow>
                   (p \<notin> set (policyObjs (snd (NetworkPolicyReconciler_Reconcile req c)))
                    \<longleftrightarrow> lastReference intents (intentsObjs c) call)))"
proof -
  note found = clientGetIntents_found [OF assms(1)]
  have objs1: "intentsObjs c1 = intentsObjs c" and pol1: "policyObjs c1 = policyObjs c"
    and fl1: "faults c1 = faults c"
    by (simp_all add: found(1))
  have after: "policyObjs (snd (NetworkPolicyReconciler_Reconcile req c))
               = policyObjs (snd (cleanPolicies (GetCallsList intents) intents c1))"
    using terminating_reconcile_is_cleanup(1) [OF assms(1,2,3)]
          cleanFinalizerAndPolicies_policyObjs [OF assms(4,2), of c1]
    by simp
  note any = cleanPolicies_any [of "GetCallsList intents" intents c1, unfolded objs1 pol1]
  have part1: "set (policyObjs (snd (NetworkPolicyReconciler_Reconcile req c))) \<subseteq> set (policyObjs c)"
    using any by (simp add: after)
  have part2: "\<forall>p \<in> set (policyObjs c).
             policyKey p \<notin> set (map (derivedRuleKey intents)
                               (filter (lastReference intents (intentsObjs c)) (GetCallsList intents)))
             \<longrightarrow> p \<in> set (policyObjs (snd (NetworkPolicyReconciler_Reconcile req c)))"
    using any by (simp add: after)
  have part3: "fst (NetworkPolicyReconciler_Reconcile req c) = (\<lparr>Requeue = False\<rparr>, None)
           \<and> policyObjs (snd (NetworkPolicyReconciler_Reconcile req c))
               = filter (\<lambda>p. policyKey p \<notin> set (map (derivedRuleKey intents)
                            (filter (lastReference intents (intentsObjs c)) (GetCallsList intents))))
                        (policyObjs c)
           \<and> (\<forall>call \<in> set (GetCallsList intents). \<forall>p \<in> set (policyObjs c).
                 policyKey p = derivedRuleKey intents call \<longrightarrow>
                   (p \<notin> set (policyObjs (snd (NetworkPolicyReconciler_Reconcile req c)))
                    \<longleftrightarrow> lastReference intents (intentsObjs c) call))"
    if nf: "\<forall>past op. faults c past op = None"
  proof (intro conjI ballI impI)
    have nf1: "\<forall>past op. faults c1 past op = None"
      using nf by (simp add: fl1)
    have "fst (cleanFinalizerAndPolicies intents c1) = None"
      using cleanFinalizerAndPolicies_no_fault [OF nf1 assms(4,2)] found(2) by (simp add: objs1)
    then show "fst (NetworkPolicyReconciler_Reconcile req c) = (\<lparr>Requeue = False\<rparr>, None)"
      by (rule terminating_reconcile_is_cleanup(2) [OF assms(1,2,3)])
    show eq: "policyObjs (snd (NetworkPolicyReconciler_Reconcile req c))
               = filter (\<lambda>p. policyKey p \<notin> set (map (derivedRuleKey intents)
                            (filter (lastReference intents (intentsObjs c)) (GetCallsList intents))))
                        (policyObjs c)"
      using cleanPolicies_no_fault [OF nf1, of "GetCallsList intents" intents]
      by (simp add: after objs1 pol1)
    fix call p
    assume call: "call \<in> set (GetCallsList intents)"
       and p: "p \<in> set (policyObjs c)"
       and k: "policyKey p = derivedRuleKey intents call"
    have "derivedRuleKey intents call
            \<in> set (map (derivedRuleKey intents)
                    (filter (lastReference intents (intentsObjs c)) (GetCallsList intents)))
          \<longleftrightarrow> lastReference intents (intentsObjs c) call"
    proof
      assume "derivedRuleKey intents call
            \<in> set (map (derivedRuleKey intents)
                    (filter (lastReference intents (intentsObjs c)) (GetCallsList intents)))"
      then obtain other where "lastReference intents (intentsObjs c) other"
          and "derivedRuleKey intents other = derivedRuleKey intents call"
        by auto
      then show "lastReference intents (intentsObjs c) call"
        using lastReference_server [OF derivedRuleKey_server] by blast
    next
      assume "lastReference intents (intentsObjs c) call"
      with call show "derivedRuleKey intents call
            \<in> set (map (derivedRuleKey intents)
                    (filter (lastReference intents (intentsObjs c)) (GetCallsList intents)))"
        by auto
    qed
    with p k show "p \<notin> set (policyObjs (snd (NetworkPolicyReconciler_Reconcile req c)))
               \<longleftrightarrow> lastReference intents (intentsObjs c) call"
      by (simp add: eq)
  qed
  from part1 part2 part3 show ?thesis by blast
qed

theorem rule_deleted_iff_last_reference_witness:
  "fst (clientGetIntents (''ns1'', ''client-intents'') (clusterOf [terminatingIntents] [examplePolicy] noFaults))
     = (None, Some terminatingIntents)
   \<and> fst (clientGetIntents (''ns1'', ''client-intents'')
            (clusterOf [terminatingIntents, otherIntents] [examplePolicy] noFaults))
     = (None, Some terminatingIntents)
   \<and> intents_Spec terminatingIntents \<noteq> None
   \<and> intents_DeletionTimestamp terminatingIntents \<noteq> None
   \<and> ContainsFinalizer terminatingIntents NetworkPolicyFinalizerName
   \<and> (\<forall>past op. faults (clusterOf [terminatingIntents] [examplePolicy] noFaults) past op = None)
   \<and> (\<forall>past op. faults (clusterOf [terminatingIntents, otherIntents] [examplePolicy] noFaults) past op = None)
   \<and> fst (NetworkPolicyReconciler_Reconcile (''ns1'', ''client-intents'')
            (clusterOf [terminatingIntents] [examplePolicy] noFaults)) = (\<lparr>Requeue = False\<rparr>, None)
   \<and> policyObjs (snd (NetworkPolicyReconciler_Reconcile (''ns1'', ''client-intents'')
         (clusterOf [terminatingIntents] [examplePolicy] noFaults))) = []
   \<and> policyObjs (snd (NetworkPolicyReconciler_Reconcile (''ns1'', ''client-intents'')
         (clusterOf [terminatingIntents, otherIntents] [examplePolicy] noFaults))) = [examplePolicy]"
proof -
  let ?req = "(''ns1'', ''client-intents'')"
  let ?cA = "clusterOf [terminatingIntents] [examplePolicy] noFaults"
  let ?cB = "clusterOf [terminatingIntents, otherIntents] [examplePolicy] noFaults"
  have gA: "fst (clientGetIntents ?req ?cA) = (None, Some terminatingIntents)"
    by (simp add: client_defs example_defs)
  have gB: "fst (clientGetIntents ?req ?cB) = (None, Some terminatingIntents)"
    by (simp add: client_defs example_defs)
  have gA': "clientGetIntents ?req ?cA = ((None, Some terminatingIntents), snd (clientGetIntents ?req ?cA))"
    using gA by (simp add: prod_eq_iff)
  have gB': "clientGetIntents ?req ?cB = ((None, Some terminatingIntents), snd (clientGetIntents ?req ?cB))"
    using gB by (simp add: prod_eq_iff)
  have sp: "intents_Spec terminatingIntents \<noteq> None"
    and dl: "intents_DeletionTimestamp terminatingIntents \<noteq> None"
    by (simp_all add: terminatingIntents_def)
  have fin: "ContainsFinalizer terminatingIntents NetworkPolicyFinalizerName"
    by (simp add: ContainsFinalizer_def terminatingIntents_def)
  have fA: "\<forall>past op. faults ?cA past op = None" and fB: "\<forall>past op. faults ?cB past op = None"
    by (simp_all add: clusterOf_def noFaults_def)
  note tA = rule_deleted_iff_last_reference [OF gA' sp dl fin, THEN conjunct2, THEN conjunct2, THEN mp, OF fA]
  note tB = rule_deleted_iff_last_reference [OF gB' sp dl fin, THEN conjunct2, THEN conjunct2, THEN mp, OF fB]
  have r0: "fst (NetworkPolicyReconciler_Reconcile ?req ?cA) = (\<lparr>Requeue = False\<rparr>, None)"
    using tA by blast
  have r1: "policyObjs (snd (NetworkPolicyReconciler_Reconcile ?req ?cA)) = []"
    using tA [THEN conjunct2, THEN conjunct1]
    by (simp add: lastReference_def referencingIntents_def derivedRuleKey_def policyNameFor_eq
          client_defs example_defs)
  have r2: "policyObjs (snd (NetworkPolicyReconciler_Reconcile ?req ?cB)) = [examplePolicy]"
    using tB [THEN conjunct2, THEN conjunct1]
    by (simp add: lastReference_def referencingIntents_def derivedRuleKey_def policyNameFor_eq
          client_defs example_defs)
  from gA gB sp dl fin fA fB r0 r1 r2 show ?thesis by (intro conjI) (assumption+)
qed

text \<open>
  Two intent objects of one namespace name the same server and are deleted in turn: the
  rule is still there after the first is finalized, and gone after the second.
\<close>

lemma two_intents_deleted_in_turn:
  "NetworkPolicyReconciler_Reconcile (''ns1'', ''client-intents'')
     (clusterOf [terminatingIntents, otherIntents] [examplePolicy] noFaults)
   = ((\<lparr>Requeue = False\<rparr>, None),
      \<lparr>intentsObjs = [otherIntents], policyObjs = [examplePolicy], faults = noFaults,
       calls = [GetIntents (''ns1'', ''client-intents''), ListIntents ''server'' ''ns1'',
                UpdateIntents (terminatingIntents\<lparr>intents_Finalizers := []\<rparr>)]\<rparr>)
   \<and> NetworkPolicyReconciler_Reconcile (''ns1'', ''other-intents'')
     (clusterOf [otherIntents\<lparr>intents_DeletionTimestamp := Some 2\<rparr>] [examplePolicy] noFaults)
   = ((\<lparr>Requeue = False\<rparr>, None),
      \<lparr>intentsObjs = [], policyObjs = [], faults = noFaults,
       calls = [GetIntents (''ns1'', ''other-intents''), ListIntents ''server'' ''ns1'',
                GetPolicy (''ns1'', ''access-to-server-from-ns1''),
                DeletePolicy (''ns1'', ''access-to-server-from-ns1''),
                UpdateIntents (otherIntents\<lparr>intents_DeletionTimestamp := Some 2, intents_Finalizers := []\<rparr>)]\<rparr>)"
  by (simp add: NetworkPolicyReconciler_Reconcile_def cleanFinalizerAndPolicies_def
        removeNetworkPolicy_def policyNameFor_eq client_defs example_defs)

section \<open>Properties of the Kafka ACL reconciler\<close>

lemmas kafka_defs = kissue_def clientGetClientIntents_def clientIntentsKey_def
  IsServerEnforcementEnabledDueToProtectionOrDefaultState_def GetPodAnnotatedName_def
  getNewKafkaIntentsAdmin_def ApplyClientIntents_def RemoveClientIntents_def Close_def
  MapErr_def Exists_def RecordWarningEvent_def RecordNormalEvent_def requestedACLs_def
  getIntentsByServer_def intentsFor_def GetTargetServerName_def GetTargetServerNamespace_def
  applyACLsOnServer_def applyACLs_def removeACLsOnServer_def RemoveACLs_def
  isIntentsForTheIntentsOperator_def applyAcls_def intentsObjectUnderDeletion_def
  handleIntentsDeletion_def KafkaACLReconciler_Reconcile_def IsNotFound_def Errorf_w_def
  NamespacedName_String_def Let_def

lemmas kafka_example_defs = exampleTopic_def kafkaCall_def kafkaSpec_def activeClientIntents_def
  terminatingClientIntents_def speclessClientIntents_def operatorInNs1_def operatorElsewhere_def
  twoBrokers_def clientGrant_def kNoFaults_def resolverFails_def connectToKafkaFails_def
  applyOnKafkaFails_def kafkaEnvOf_def

subsection \<open>One broker at a time\<close>

lemmas step_defs = applyACLsOnServer_def removeACLsOnServer_def
  IsServerEnforcementEnabledDueToProtectionOrDefaultState_def getNewKafkaIntentsAdmin_def
  ApplyClientIntents_def RemoveClientIntents_def Close_def kissue_def RecordWarningEvent_def
  RecordNormalEvent_def Let_def

lemma removeACLsOnServer_no_fault:
  assumes "\<forall>past op. kfaults env past op = None"
  shows "removeACLsOnServer r intents spec serverName config tls env
         = (None, env\<lparr>kcalls := kcalls env @
               [OpIsEnforced serverName,
                OpOpenAdmin serverName (enableKafkaACLCreation r)
                  (serverName \<in> set (protectedServices env) \<or> enforcementDefaultState r),
                OpRemoveClientIntents serverName (cspec_ServiceName spec) (ci_Namespace intents),
                OpCloseAdmin serverName],
              brokerACLs := filter (\<lambda>entry. fst entry \<noteq> serverName
                                \<or> fst (snd entry) \<noteq> (cspec_ServiceName spec, ci_Namespace intents))
                              (brokerACLs env)\<rparr>)"
  using assms by (simp add: step_defs)

lemma mapErrOver_remove_no_fault:
  assumes "\<forall>past op. kfaults env past op = None"
  shows "fst (mapErrOver (removeACLsOnServer r intents spec) servers tls env) = None
       \<and> kfaults (snd (mapErrOver (removeACLsOnServer r intents spec) servers tls env)) = kfaults env
       \<and> protectedServices (snd (mapErrOver (removeACLsOnServer r intents spec) servers tls env))
           = protectedServices env
       \<and> events (snd (mapErrOver (removeACLsOnServer r intents spec) servers tls env)) = events env
       \<and> brokerACLs (snd (mapErrOver (removeACLsOnServer r intents spec) servers tls env))
           = filter (\<lambda>entry. fst entry \<notin> set (map fst servers)
                       \<or> fst (snd entry) \<noteq> (cspec_ServiceName spec, ci_Namespace intents))
                    (brokerACLs env)
       \<and> (\<exists>ops. kcalls (snd (mapErrOver (removeACLsOnServer r intents spec) servers tls env)) = kcalls env @ ops
              \<and> (\<forall>server \<in> set (map fst servers).
                    OpOpenAdmin server (enableKafkaACLCreation r)
                        (server \<in> set (protectedServices env) \<or> enforcementDefaultState r) \<in> set ops
                    \<and> OpRemoveClientIntents server (cspec_ServiceName spec) (ci_Namespace intents) \<in> set ops))"
  using assms
proof (induction servers arbitrary: env)
  case Nil
  then show ?case by simp
next
  case (Cons a servers)
  obtain serverName config where a: "a = (serverName, config)" by (cases a)
  define env1 where "env1 = snd (removeACLsOnServer r intents spec serverName config tls env)"
  have s1: "removeACLsOnServer r intents spec serverName config tls env = (None, env1)"
    using removeACLsOnServer_no_fault [OF Cons.prems] by (simp add: env1_def)
  have e1: "env1 = env\<lparr>kcalls := kcalls env @
               [OpIsEnforced serverName,
                OpOpenAdmin serverName (enableKafkaACLCreation r)
                  (serverName \<in> set (protectedServices env) \<or> enforcementDefaultState r),
                OpRemoveClientIntents serverName (cspec_ServiceName spec) (ci_Namespace intents),
                OpCloseAdmin serverName],
              brokerACLs := filter (\<lambda>entry. fst entry \<noteq> serverName
                                \<or> fst (snd entry) \<noteq> (cspec_ServiceName spec, ci_Namespace intents))
                              (brokerACLs env)\<rparr>"
    using removeACLsOnServer_no_fault [OF Cons.prems] by (simp add: env1_def)
  have nf1: "\<forall>past op. kfaults env1 past op = None"
    using Cons.prems by (simp add: e1)
  have ps1: "protectedServices env1 = protectedServices env"
    by (simp add: e1)
  note IH = Cons.IH [OF nf1, unfolded ps1]
  have step: "mapErrOver (removeACLsOnServer r intents spec) (a # servers) tls env
              = mapErrOver (removeACLsOnServer r intents spec) servers tls env1"
    by (simp add: a s1 split: prod.splits)
  from IH obtain ops where ops: "kcalls (snd (mapErrOver (removeACLsOnServer r intents spec) servers tls env1)) = kcalls env1 @ ops"
      and all: "\<forall>server \<in> set (map fst servers).
                    OpOpenAdmin server (enableKafkaACLCreation r)
                        (server \<in> set (protectedServices env) \<or> enforcementDefaultState r) \<in> set ops
                    \<and> OpRemoveClientIntents server (cspec_ServiceName spec) (ci_Namespace intents) \<in> set ops"
    by blast
  have calls: "\<exists>ops'. kcalls (snd (mapErrOver (removeACLsOnServer r intents spec) servers tls env1)) = kcalls env @ ops'
              \<and> (\<forall>server \<in> set (map fst (a # servers)).
                    OpOpenAdmin server (enableKafkaACLCreation r)
                        (server \<in> set (protectedServices env) \<or> enforcementDefaultState r) \<in> set ops'
                    \<and> OpRemoveClientIntents server (cspec_ServiceName spec) (ci_Namespace intents) \<in> set ops')"
    using ops all by (auto simp: e1 a)
  have acls: "brokerACLs (snd (mapErrOver (removeACLsOnServer r intents spec) servers tls env1))
           = filter (\<lambda>entry. fst entry \<notin> set (map fst (a # servers))
                       \<or> fst (snd entry) \<noteq> (cspec_ServiceName spec, ci_Namespace intents))
                    (brokerACLs env)"
    using IH by (auto simp: e1 a intro!: filter_cong)
  from IH calls acls show ?case
    unfolding step by (simp add: e1)
qed

lemma applyACLsOnServer_frame:
  "kfaults (snd (applyACLsOnServer r intents spec ibs s cfg tls env)) = kfaults env
   \<and> kafkaServers (snd (applyACLsOnServer r intents spec ibs s cfg tls env)) = kafkaServers env
   \<and> protectedServices (snd (applyACLsOnServer r intents spec ibs s cfg tls env)) = protectedServices env"
  by (simp add: step_defs split: option.splits sum.splits prod.splits)

lemma applyACLsOnServer_events:
  "\<exists>evs. events (snd (applyACLsOnServer r intents spec ibs s cfg tls env)) = events env @ evs"
  by (simp add: step_defs split: option.splits sum.splits prod.splits)

lemma applyACLsOnServer_grants:
  assumes "entry \<in> set (brokerACLs (snd (applyACLsOnServer r intents spec ibs s cfg tls env)))"
  shows "entry \<in> set (brokerACLs env)
         \<or> (fst entry = s \<and> enableKafkaACLCreation r
              \<and> (s \<in> set (protectedServices env) \<or> enforcementDefaultState r))"
  using assms
  by (auto simp: step_defs split: option.splits sum.splits prod.splits if_splits)

lemma applyACLsOnServer_calls:
  "\<exists>ops. kcalls (snd (applyACLsOnServer r intents spec ibs s cfg tls env)) = kcalls env @ ops
     \<and> OpIsEnforced s \<in> set ops
     \<and> (\<forall>b svc ns calls0. OpApplyClientIntents b svc ns calls0 \<in> set ops
           \<longrightarrow> b = s \<and> (\<exists>past cr en. kfaults env past (OpOpenAdmin b cr en) = None))
     \<and> ((\<forall>past. kfaults env past (OpIsEnforced s) = None)
         \<longrightarrow> OpOpenAdmin s (enableKafkaACLCreation r)
               (s \<in> set (protectedServices env) \<or> enforcementDefaultState r) \<in> set ops)
     \<and> ((\<forall>past. kfaults env past (OpIsEnforced s) = None)
          \<and> (\<forall>past cr en. kfaults env past (OpOpenAdmin s cr en) = None)
         \<longrightarrow> OpApplyClientIntents s (cspec_ServiceName spec) (ci_Namespace intents) (intentsFor ibs s) \<in> set ops)"
  by (auto simp: step_defs split: option.splits sum.splits prod.splits)

lemma applyACLsOnServer_connect_failure:
  assumes "\<forall>past. kfaults env past (OpIsEnforced s) = None"
      and "\<forall>past cr en. kfaults env past (OpOpenAdmin s cr en) \<noteq> None"
  shows "fst (applyACLsOnServer r intents spec ibs s cfg tls env) \<noteq> None
     \<and> (\<exists>evs. events (snd (applyACLsOnServer r intents spec ibs s cfg tls env)) = events env @ evs
           \<and> (Warning, ReasonCouldNotConnectToKafkaServer, clientIntentsKey intents) \<in> set evs)"
proof -
  define en where "en = (s \<in> set (protectedServices env) \<or> enforcementDefaultState r)"
  from assms(2) obtain e where
    "kfaults env (kcalls env @ [OpIsEnforced s]) (OpOpenAdmin s (enableKafkaACLCreation r) en) = Some e"
    by fastforce
  with assms(1) show ?thesis
    by (auto simp: step_defs en_def split: if_splits)
qed

lemma applyACLsOnServer_apply_failure:
  assumes "\<forall>past. kfaults env past (OpIsEnforced s) = None"
      and "\<forall>past cr en. kfaults env past (OpOpenAdmin s cr en) = None"
      and "\<forall>past svc ns calls0. kfaults env past (OpApplyClientIntents s svc ns calls0) \<noteq> None"
  shows "fst (applyACLsOnServer r intents spec ibs s cfg tls env) \<noteq> None
     \<and> (\<exists>evs. events (snd (applyACLsOnServer r intents spec ibs s cfg tls env)) = events env @ evs
           \<and> (Warning, ReasonCouldNotApplyIntentsOnKafkaServer, clientIntentsKey intents) \<in> set evs)"
proof -
  define en where "en = (s \<in> set (protectedServices env) \<or> enforcementDefaultState r)"
  from assms(3) obtain e where
    "kfaults env (kcalls env @ [OpIsEnforced s, OpOpenAdmin s (enableKafkaACLCreation r) en])
       (OpApplyClientIntents s (cspec_ServiceName spec) (ci_Namespace intents) (intentsFor ibs s)) = Some e"
    by fastforce
  with assms(1,2) show ?thesis
    by (auto simp: step_defs en_def split: if_splits)
qed

lemma mapErrOver_Cons_snd:
  "snd (mapErrOver f ((s, cfg) # rest) tls env) = snd (mapErrOver f rest tls (snd (f s cfg tls env)))"
  by (simp split: prod.splits)

lemma mapErrOver_Cons_fst:
  "fst (mapErrOver f ((s, cfg) # rest) tls env)
   = (if fst (f s cfg tls env) \<noteq> None then fst (f s cfg tls env)
      else fst (mapErrOver f rest tls (snd (f s cfg tls env))))"
  by (simp split: prod.splits)

lemma mapErrOver_apply_frame:
  "kfaults (snd (mapErrOver (applyACLsOnServer r intents spec ibs) servers tls env)) = kfaults env
   \<and> kafkaServers (snd (mapErrOver (applyACLsOnServer r intents spec ibs) servers tls env)) = kafkaServers env
   \<and> protectedServices (snd (mapErrOver (applyACLsOnServer r intents spec ibs) servers tls env)) = protectedServices env"
proof (induction servers arbitrary: env)
  case Nil
  show ?case by simp
next
  case (Cons a servers)
  obtain s cfg where a: "a = (s, cfg)" by (cases a)
  show ?case
    unfolding a mapErrOver_Cons_snd
    using Cons.IH [of "snd (applyACLsOnServer r intents spec ibs s cfg tls env)"]
          applyACLsOnServer_frame [of r intents spec ibs s cfg tls env]
    by simp
qed

lemma mapErrOver_apply_events:
  "\<exists>evs. events (snd (mapErrOver (applyACLsOnServer r intents spec ibs) servers tls env)) = events env @ evs"
proof (induction servers arbitrary: env)
  case Nil
  show ?case by simp
next
  case (Cons a servers)
  obtain s cfg where a: "a = (s, cfg)" by (cases a)
  show ?case
    unfolding a mapErrOver_Cons_snd
    using Cons.IH [of "snd (applyACLsOnServer r intents spec ibs s cfg tls env)"]
          applyACLsOnServer_events [of r intents spec ibs s cfg tls env]
    by auto
qed

lemma mapErrOver_apply_grants:
  assumes "entry \<in> set (brokerACLs (snd (mapErrOver (applyACLsOnServer r intents spec ibs) servers tls env)))"
  shows "entry \<in> set (brokerACLs env)
         \<or> (fst entry \<in> set (map fst servers) \<and> enableKafkaACLCreation r
              \<and> (fst entry \<in> set (protectedServices env) \<or> enforcementDefaultState r))"
  using assms
proof (induction servers arbitrary: env)
  case Nil
  then show ?case by simp
next
  case (Cons a servers)
  obtain s cfg where a: "a = (s, cfg)" by (cases a)
  let ?env1 = "snd (applyACLsOnServer r intents spec ibs s cfg tls env)"
  from Cons.prems have "entry \<in> set (brokerACLs (snd (mapErrOver (applyACLsOnServer r intents spec ibs) servers tls ?env1)))"
    by (simp only: a mapErrOver_Cons_snd)
  from Cons.IH [OF this] have
    "entry \<in> set (brokerACLs ?env1)
       \<or> (fst entry \<in> set (map fst servers) \<and> enableKafkaACLCreation r
            \<and> (fst entry \<in> set (protectedServices env) \<or> enforcementDefaultState r))"
    using applyACLsOnServer_frame [of r intents spec ibs s cfg tls env] by simp
  then show ?case
    using applyACLsOnServer_grants [of entry r intents spec ibs s cfg tls env]
    by (auto simp: a)
qed

lemma mapErrOver_apply_calls:
  "\<exists>ops. kcalls (snd (mapErrOver (applyACLsOnServer r intents spec ibs) servers tls env)) = kcalls env @ ops
     \<and> (\<forall>s \<in> set (map fst servers). OpIsEnforced s \<in> set ops)
     \<and> (\<forall>b svc ns calls0. OpApplyClientIntents b svc ns calls0 \<in> set ops
           \<longrightarrow> (\<exists>past cr en. kfaults env past (OpOpenAdmin b cr en) = None))
     \<and> (\<forall>s \<in> set (map fst servers).
           (\<forall>past. kfaults env past (OpIsEnforced s) = None)
           \<longrightarrow> OpOpenAdmin s (enableKafkaACLCreation r)
                 (s \<in> set (protectedServices env) \<or> enforcementDefaultState r) \<in> set ops)
     \<and> (\<forall>s \<in> set (map fst servers).
           (\<forall>past. kfaults env past (OpIsEnforced s) = None)
            \<and> (\<forall>past cr en. kfaults env past (OpOpenAdmin s cr en) = None)
           \<longrightarrow> OpApplyClientIntents s (cspec_ServiceName spec) (ci_Namespace intents) (intentsFor ibs s) \<in> set ops)"
proof (induction servers arbitrary: env)
  case Nil
  show ?case by simp
next
  case (Cons a servers)
  obtain s cfg where a: "a = (s, cfg)" by (cases a)
  let ?env1 = "snd (applyACLsOnServer r intents spec ibs s cfg tls env)"
  have fr: "kfaults ?env1 = kfaults env" and ps: "protectedServices ?env1 = protectedServices env"
    using applyACLsOnServer_frame [of r intents spec ibs s cfg tls env] by simp_all
  from applyACLsOnServer_calls [of r intents spec ibs s cfg tls env]
  obtain ops1 where o1: "kcalls ?env1 = kcalls env @ ops1"
    and e1: "OpIsEnforced s \<in> set ops1"
    and a1: "\<forall>b svc ns calls0. OpApplyClientIntents b svc ns calls0 \<in> set ops1
           \<longrightarrow> b = s \<and> (\<exists>past cr en. kfaults env past (OpOpenAdmin b cr en) = None)"
    and q1: "(\<forall>past. kfaults env past (OpIsEnforced s) = None)
         \<longrightarrow> OpOpenAdmin s (enableKafkaACLCreation r)
               (s \<in> set (protectedServices env) \<or> enforcementDefaultState r) \<in> set ops1"
    and p1: "(\<forall>past. kfaults env past (OpIsEnforced s) = None)
          \<and> (\<forall>past cr en. kfaults env past (OpOpenAdmin s cr en) = None)
         \<longrightarrow> OpApplyClientIntents s (cspec_ServiceName spec) (ci_Namespace intents) (intentsFor ibs s) \<in> set ops1"
    by blast
  from Cons.IH [of ?env1]
  obtain ops2 where o2: "kcalls (snd (mapErrOver (applyACLsOnServer r intents spec ibs) servers tls ?env1)) = kcalls ?env1 @ ops2"
    and e2: "\<forall>s \<in> set (map fst servers). OpIsEnforced s \<in> set ops2"
    and a2: "\<forall>b svc ns calls0. OpApplyClientIntents b svc ns calls0 \<in> set ops2
           \<longrightarrow> (\<exists>past cr en. kfaults env past (OpOpenAdmin b cr en) = None)"
    and q2: "\<forall>s \<in> set (map fst servers).
           (\<forall>past. kfaults env past (OpIsEnforced s) = None)
           \<longrightarrow> OpOpenAdmin s (enableKafkaACLCreation r)
                 (s \<in> set (protectedServices env) \<or> enforcementDefaultState r) \<in> set ops2"
    and p2: "\<forall>s \<in> set (map fst servers).
           (\<forall>past. kfaults env past (OpIsEnforced s) = None)
            \<and> (\<forall>past cr en. kfaults env past (OpOpenAdmin s cr en) = None)
           \<longrightarrow> OpApplyClientIntents s (cspec_ServiceName spec) (ci_Namespace intents) (intentsFor ibs s) \<in> set ops2"
    unfolding fr ps by blast
  have "kcalls (snd (mapErrOver (applyACLsOnServer r intents spec ibs) (a # servers) tls env)) = kcalls env @ (ops1 @ ops2)"
    by (simp add: a mapErrOver_Cons_snd o1 o2 del: mapErrOver.simps)
  moreover have "\<forall>s' \<in> set (map fst (a # servers)). OpIsEnforced s' \<in> set (ops1 @ ops2)"
    using e1 e2 by (auto simp: a)
  moreover have "\<forall>b svc ns calls0. OpApplyClientIntents b svc ns calls0 \<in> set (ops1 @ ops2)
           \<longrightarrow> (\<exists>past cr en. kfaults env past (OpOpenAdmin b cr en) = None)"
    using a1 a2 by (metis Un_iff set_append)
  moreover have "\<forall>s' \<in> set (map fst (a # servers)).
           (\<forall>past. kfaults env past (OpIsEnforced s') = None)
           \<longrightarrow> OpOpenAdmin s' (enableKafkaACLCreation r)
                 (s' \<in> set (protectedServices env) \<or> enforcementDefaultState r) \<in> set (ops1 @ ops2)"
    using q1 q2 by (auto simp: a)
  moreover have "\<forall>s' \<in> set (map fst (a # servers)).
           (\<forall>past. kfaults env past (OpIsEnforced s') = None)
            \<and> (\<forall>past cr en. kfaults env past (OpOpenAdmin s' cr en) = None)
           \<longrightarrow> OpApplyClientIntents s' (cspec_ServiceName spec) (ci_Namespace intents) (intentsFor ibs s') \<in> set (ops1 @ ops2)"
    using p1 p2 by (auto simp: a)
  ultimately show ?case by blast
qed

lemma mapErrOver_apply_connect_failure:
  assumes "b \<in> set (map fst servers)"
      and "\<forall>past. kfaults env past (OpIsEnforced b) = None"
      and "\<forall>past cr en. kfaults env past (OpOpenAdmin b cr en) \<noteq> None"
  shows "fst (mapErrOver (applyACLsOnServer r intents spec ibs) servers tls env) \<noteq> None
     \<and> (\<exists>evs. events (snd (mapErrOver (applyACLsOnServer r intents spec ibs) servers tls env)) = events env @ evs
           \<and> (Warning, ReasonCouldNotConnectToKafkaServer, clientIntentsKey intents) \<in> set evs)"
  using assms
proof (induction servers arbitrary: env)
  case Nil
  then show ?case by simp
next
  case (Cons a servers)
  obtain s cfg where a: "a = (s, cfg)" by (cases a)
  let ?env1 = "snd (applyACLsOnServer r intents spec ibs s cfg tls env)"
  have fr: "kfaults ?env1 = kfaults env"
    using applyACLsOnServer_frame [of r intents spec ibs s cfg tls env] by simp
  from mapErrOver_apply_events [of r intents spec ibs servers tls ?env1]
  obtain evs2 where ev2: "events (snd (mapErrOver (applyACLsOnServer r intents spec ibs) servers tls ?env1))
                          = events ?env1 @ evs2"
    by blast
  from applyACLsOnServer_events [of r intents spec ibs s cfg tls env]
  obtain evs1 where ev1: "events ?env1 = events env @ evs1"
    by blast
  show ?case
  proof (cases "b = s")
    case True
    from applyACLsOnServer_connect_failure [OF Cons.prems(2,3), of r intents spec ibs cfg tls]
    obtain evs where err: "fst (applyACLsOnServer r intents spec ibs s cfg tls env) \<noteq> None"
      and ev: "events ?env1 = events env @ evs"
      and w: "(Warning, ReasonCouldNotConnectToKafkaServer, clientIntentsKey intents) \<in> set evs"
      using True by blast
    have "events (snd (mapErrOver (applyACLsOnServer r intents spec ibs) servers tls ?env1))
          = events env @ (evs @ evs2)
        \<and> (Warning, ReasonCouldNotConnectToKafkaServer, clientIntentsKey intents) \<in> set (evs @ evs2)"
      using ev ev2 w by simp
    moreover have "fst (mapErrOver (applyACLsOnServer r intents spec ibs) ((s, cfg) # servers) tls env) \<noteq> None"
      using err by (simp add: mapErrOver_Cons_fst del: mapErrOver.simps)
    ultimately show ?thesis
      unfolding a mapErrOver_Cons_snd by blast
  next
    case False
    with Cons.prems(1) have "b \<in> set (map fst servers)" by (auto simp: a)
    from Cons.IH [OF this, of ?env1] Cons.prems(2,3) fr
    obtain evs where err: "fst (mapErrOver (applyACLsOnServer r intents spec ibs) servers tls ?env1) \<noteq> None"
      and ev: "events (snd (mapErrOver (applyACLsOnServer r intents spec ibs) servers tls ?env1)) = events ?env1 @ evs"
      and w: "(Warning, ReasonCouldNotConnectToKafkaServer, clientIntentsKey intents) \<in> set evs"
      by auto
    have "events (snd (mapErrOver (applyACLsOnServer r intents spec ibs) servers tls ?env1))
          = events env @ (evs1 @ evs)
        \<and> (Warning, ReasonCouldNotConnectToKafkaServer, clientIntentsKey intents) \<in> set (evs1 @ evs)"
      using ev ev1 w by simp
    moreover have "fst (mapErrOver (applyACLsOnServer r intents spec ibs) ((s, cfg) # servers) tls env) \<noteq> None"
      using err by (simp add: mapErrOver_Cons_fst del: mapErrOver.simps)
    ultimately show ?thesis
      unfolding a mapErrOver_Cons_snd by blast
  qed
qed

lemma mapErrOver_apply_apply_failure:
  assumes "b \<in> set (map fst servers)"
      and "\<forall>past. kfaults env past (OpIsEnforced b) = None"
      and "\<forall>past cr en. kfaults env past (OpOpenAdmin b cr en) = None"
      and "\<forall>past svc ns calls0. kfaults env past (OpApplyClientIntents b svc ns calls0) \<noteq> None"
  shows "fst (mapErrOver (applyACLsOnServer r intents spec ibs) servers tls env) \<noteq> None
     \<and> (\<exists>evs. events (snd (mapErrOver (applyACLsOnServer r intents spec ibs) servers tls env)) = events env @ evs
           \<and> (Warning, ReasonCouldNotApplyIntentsOnKafkaServer, clientIntentsKey intents) \<in> set evs)"
  using assms
proof (induction servers arbitrary: env)
  case Nil
  then show ?case by simp
next
  case (Cons a servers)
  obtain s cfg where a: "a = (s, cfg)" by (cases a)
  let ?env1 = "snd (applyACLsOnServer r intents spec ibs s cfg tls env)"
  have fr: "kfaults ?env1 = kfaults env"
    using applyACLsOnServer_frame [of r intents spec ibs s cfg tls env] by simp
  from mapErrOver_apply_events [of r intents spec ibs servers tls ?env1]
  obtain evs2 where ev2: "events (snd (mapErrOver (applyACLsOnServer r intents spec ibs) servers tls ?env1))
                          = events ?env1 @ evs2"
    by blast
  from applyACLsOnServer_events [of r intents spec ibs s cfg tls env]
  obtain evs1 where ev1: "events ?env1 = events env @ evs1"
    by blast
  show ?case
  proof (cases "b = s")
    case True
    from applyACLsOnServer_apply_failure [OF Cons.prems(2,3,4), of r intents spec ibs cfg tls]
    obtain evs where err: "fst (applyACLsOnServer r intents spec ibs s cfg tls env) \<noteq> None"
      and ev: "events ?env1 = events env @ evs"
      and w: "(Warning, ReasonCouldNotApplyIntentsOnKafkaServer, clientIntentsKey intents) \<in> set evs"
      using True by blast
    have "events (snd (mapErrOver (applyACLsOnServer r intents spec ibs) servers tls ?env1))
          = events env @ (evs @ evs2)
        \<and> (Warning, ReasonCouldNotApplyIntentsOnKafkaServer, clientIntentsKey intents) \<in> set (evs @ evs2)"
      using ev ev2 w by simp
    moreover have "fst (mapErrOver (applyACLsOnServer r intents spec ibs) ((s, cfg) # servers) tls env) \<noteq> None"
      using err by (simp add: mapErrOver_Cons_fst del: mapErrOver.simps)
    ultimately show ?thesis
      unfolding a mapErrOver_Cons_snd by blast
  next
    case False
    with Cons.prems(1) have "b \<in> set (map fst servers)" by (auto simp: a)
    from Cons.IH [OF this, of ?env1] Cons.prems(2,3,4) fr
    obtain evs where err: "fst (mapErrOver (applyACLsOnServer r intents spec ibs) servers tls ?env1) \<noteq> None"
      and ev: "events (snd (mapErrOver (applyACLsOnServer r intents spec ibs) servers tls ?env1)) = events ?env1 @ evs"
      and w: "(Warning, ReasonCouldNotApplyIntentsOnKafkaServer, clientIntentsKey intents) \<in> set evs"
      by auto
    have "events (snd (mapErrOver (applyACLsOnServer r intents spec ibs) servers tls ?env1))
          = events env @ (evs1 @ evs)
        \<and> (Warning, ReasonCouldNotApplyIntentsOnKafkaServer, clientIntentsKey intents) \<in> set (evs1 @ evs)"
      using ev ev1 w by simp
    moreover have "fst (mapErrOver (applyACLsOnServer r intents spec ibs) ((s, cfg) # servers) tls env) \<noteq> None"
      using err by (simp add: mapErrOver_Cons_fst del: mapErrOver.simps)
    ultimately show ?thesis
      unfolding a mapErrOver_Cons_snd by blast
  qed
qed

lemma notConfigured_events:
  "kcalls (foldl (\<lambda>env' serverName.
                   if \<not> Exists (snd serverName) (fst serverName) env'
                   then RecordWarningEvent intents reason env' else env') env xs) = kcalls env
   \<and> brokerACLs (foldl (\<lambda>env' serverName.
                   if \<not> Exists (snd serverName) (fst serverName) env'
                   then RecordWarningEvent intents reason env' else env') env xs) = brokerACLs env
   \<and> (\<exists>evs. events (foldl (\<lambda>env' serverName.
                   if \<not> Exists (snd serverName) (fst serverName) env'
                   then RecordWarningEvent intents reason env' else env') env xs) = events env @ evs)"
proof (induction xs arbitrary: env)
  case Nil
  show ?case by simp
next
  case (Cons x xs)
  show ?case
    using Cons.IH [of "RecordWarningEvent intents reason env"] Cons.IH [of env]
    by (auto simp: RecordWarningEvent_def)
qed

lemma applyACLs_result:
  "snd (fst (applyACLs r intents spec env))
     = fst (mapErrOver (applyACLsOnServer r intents spec (getIntentsByServer (ci_Namespace intents) (cspec_Calls spec)))
              (kafkaServers env) (tlsSource env) env)
   \<and> kcalls (snd (applyACLs r intents spec env))
     = kcalls (snd (mapErrOver (applyACLsOnServer r intents spec (getIntentsByServer (ci_Namespace intents) (cspec_Calls spec)))
              (kafkaServers env) (tlsSource env) env))
   \<and> brokerACLs (snd (applyACLs r intents spec env))
     = brokerACLs (snd (mapErrOver (applyACLsOnServer r intents spec (getIntentsByServer (ci_Namespace intents) (cspec_Calls spec)))
              (kafkaServers env) (tlsSource env) env))
   \<and> (\<exists>evs. events (snd (applyACLs r intents spec env))
     = events (snd (mapErrOver (applyACLsOnServer r intents spec (getIntentsByServer (ci_Namespace intents) (cspec_Calls spec)))
              (kafkaServers env) (tlsSource env) env)) @ evs)"
proof -
  define ibs where "ibs = getIntentsByServer (ci_Namespace intents) (cspec_Calls spec)"
  define m where "m = mapErrOver (applyACLsOnServer r intents spec ibs) (kafkaServers env) (tlsSource env) env"
  show ?thesis
  proof (cases "fst m")
    case None
    then have m: "m = (None, snd m)" by (simp add: prod_eq_iff)
    define env2 where "env2 = (if \<not> enableKafkaACLCreation r
                       then RecordNormalEvent intents ReasonKafkaACLCreationDisabled (snd m) else snd m)"
    have e2: "kcalls env2 = kcalls (snd m) \<and> brokerACLs env2 = brokerACLs (snd m)
               \<and> (\<exists>evs. events env2 = events (snd m) @ evs)"
      by (simp add: env2_def RecordNormalEvent_def)
    have ap: "applyACLs r intents spec env
          = ((length ibs, None),
             foldl (\<lambda>env' serverName.
                      if \<not> Exists (snd serverName) (fst serverName) env'
                      then RecordWarningEvent intents ReasonKafkaServerNotConfigured env' else env')
                   env2 (map fst ibs))"
      unfolding applyACLs_def MapErr_def Let_def ibs_def [symmetric] m_def [symmetric]
      by (subst m) (simp add: env2_def)
    from notConfigured_events [of intents ReasonKafkaServerNotConfigured env2 "map fst ibs"] e2 None
    show ?thesis
      unfolding ibs_def [symmetric] m_def [symmetric] ap by auto
  next
    case (Some e)
    then have m: "m = (Some e, snd m)" by (simp add: prod_eq_iff)
    have ap: "applyACLs r intents spec env = ((0, Some e), snd m)"
      unfolding applyACLs_def MapErr_def Let_def ibs_def [symmetric] m_def [symmetric]
      by (subst m) simp
    show ?thesis
      unfolding ibs_def [symmetric] m_def [symmetric] ap using Some by simp
  qed
qed

subsection \<open>What Reconcile hands to the apply path and to the removal path\<close>

text \<open>
  \<open>applyAcls\<close> adds only the closing event to what \<open>applyACLs\<close> did; an active intent
  object found with a Spec, outside the namespace of the operator, goes to \<open>applyAcls\<close>;
  a terminating one goes to \<open>handleIntentsDeletion\<close>.
\<close>

lemma applyAcls_result:
  "fst (fst (applyAcls r intents spec env)) = \<lparr>Requeue = False\<rparr>
   \<and> snd (fst (applyAcls r intents spec env)) = snd (fst (applyACLs r intents spec env))
   \<and> kcalls (snd (applyAcls r intents spec env)) = kcalls (snd (applyACLs r intents spec env))
   \<and> brokerACLs (snd (applyAcls r intents spec env)) = brokerACLs (snd (applyACLs r intents spec env))
   \<and> (\<exists>evs. events (snd (applyAcls r intents spec env)) = events (snd (applyACLs r intents spec env)) @ evs
         \<and> (snd (fst (applyACLs r intents spec env)) \<noteq> None
             \<longrightarrow> (Warning, ReasonApplyingKafkaACLsFailed, clientIntentsKey intents) \<in> set evs))"
  by (auto simp: applyAcls_def RecordWarningEvent_def RecordNormalEvent_def split: prod.splits option.splits)

lemma clientGetClientIntents_found:
  assumes "clientGetClientIntents req env = ((None, Some intents), env1)"
  shows "env1 = env\<lparr>kcalls := kcalls env @ [OpGetClientIntents req]\<rparr>"
  using assms
  by (auto simp: clientGetClientIntents_def kissue_def split: option.splits)

lemma active_reconcile_is_apply:
  assumes "clientGetClientIntents req env = ((None, Some intents), env1)"
      and "ci_Spec intents = Some spec"
      and "ci_DeletionTimestamp intents = None"
      and "operatorPodNamespace r \<noteq> ci_Namespace intents"
  shows "fst (KafkaACLReconciler_Reconcile r req env)
           = (\<lparr>Requeue = False\<rparr>, snd (fst (applyAcls r intents spec env1)))"
    and "snd (KafkaACLReconciler_Reconcile r req env) = snd (applyAcls r intents spec env1)"
  using assms applyAcls_result [of r intents spec env1]
  by (auto simp: KafkaACLReconciler_Reconcile_def intentsObjectUnderDeletion_def
        isIntentsForTheIntentsOperator_def split: prod.splits option.splits)

lemma terminating_reconcile_is_removal:
  assumes "clientGetClientIntents req env = ((None, Some intents), env1)"
      and "ci_Spec intents = Some spec"
      and "ci_DeletionTimestamp intents \<noteq> None"
  shows "KafkaACLReconciler_Reconcile r req env = handleIntentsDeletion r intents spec env1"
  using assms
  by (simp add: KafkaACLReconciler_Reconcile_def intentsObjectUnderDeletion_def)

subsection \<open>Enforcement gates grants, never removal\<close>

text \<open>
  C4. Reconcile of a terminating intent object that is found and has a Spec: when every
  collaborator call succeeds, Reconcile ends without error and without requeue; on every
  configured broker it has opened an admin session, with the enforcement flag that the
  protection declarations and the default enforcement state give, whatever they are, and it
  has called \<open>RemoveClientIntents\<close> for the declaring service; and the ACL entries left are
  those of before without the entries of the declaring service on the configured brokers.
  Reconcile of an active intent object that is found, has a Spec and lives outside the
  namespace of the operator: on a configured broker \<open>b\<close> whose enforcement resolves to
  false (default off, no protection declaration) and whose enforcement lookup and
  connection succeed, the admin session is opened with enforcement off,
  \<open>ApplyClientIntents\<close> is called on \<open>b\<close> with the Calls for \<open>b\<close>, and every ACL entry of
  \<open>b\<close> found after Reconcile was there before: no grant is created.
\<close>

theorem enforcement_never_gates_removal:
  "(clientGetClientIntents req env = ((None, Some intents), env1)
      \<and> ci_Spec intents = Some spec
      \<and> ci_DeletionTimestamp intents \<noteq> None
      \<and> (\<forall>past op. kfaults env past op = None)
     \<longrightarrow> fst (KafkaACLReconciler_Reconcile r req env) = (\<lparr>Requeue = False\<rparr>, None)
         \<and> (\<forall>server \<in> set (map fst (kafkaServers env)).
               OpOpenAdmin server (enableKafkaACLCreation r)
                   (server \<in> set (protectedServices env) \<or> enforcementDefaultState r)
                 \<in> set (drop (length (kcalls env)) (kcalls (snd (KafkaACLReconciler_Reconcile r req env))))
               \<and> OpRemoveClientIntents server (cspec_ServiceName spec) (ci_Namespace intents)
                 \<in> set (drop (length (kcalls env)) (kcalls (snd (KafkaACLReconciler_Reconcile r req env)))))
         \<and> brokerACLs (snd (KafkaACLReconciler_Reconcile r req env))
             = filter (\<lambda>entry. fst entry \<notin> set (map fst (kafkaServers env))
                         \<or> fst (snd entry) \<noteq> (cspec_ServiceName spec, ci_Namespace intents))
                      (brokerACLs env))
   \<and> (clientGetClientIntents req env = ((None, Some intents), env1)
      \<and> ci_Spec intents = Some spec
      \<and> ci_DeletionTimestamp intents = None
      \<and> operatorPodNamespace r \<noteq> ci_Namespace intents
      \<and> b \<in> set (map fst (kafkaServers env))
      \<and> \<not> enforcementDefaultState r \<and> b \<notin> set (protectedServices env)
      \<and> (\<forall>past. kfaults env past (OpIsEnforced b) = None)
      \<and> (\<forall>past cr en. kfaults env past (OpOpenAdmin b cr en) = None)
     \<longrightarrow> OpOpenAdmin b (enableKafkaACLCreation r) False
           \<in> set (drop (length (kcalls env)) (kcalls (snd (KafkaACLReconciler_Reconcile r req env))))
         \<and> OpApplyClientIntents b (cspec_ServiceName spec) (ci_Namespace intents)
               (intentsFor (getIntentsByServer (ci_Namespace intents) (cspec_Calls spec)) b)
           \<in> set (drop (length (kcalls env)) (kcalls (snd (KafkaACLReconciler_Reconcile r req env))))
         \<and> (\<forall>entry \<in> set (brokerACLs (snd (KafkaACLReconciler_Reconcile r req env))).
               fst entry = b \<longrightarrow> entry \<in> set (brokerACLs env)))"
proof (intro conjI impI)
  assume h: "clientGetClientIntents req env = ((None, Some intents), env1)
      \<and> ci_Spec intents = Some spec
      \<and> ci_DeletionTimestamp intents \<noteq> None
      \<and> (\<forall>past op. kfaults env past op = None)"
  then have get: "clientGetClientIntents req env = ((None, Some intents), env1)"
    and spec: "ci_Spec intents = Some spec" and del: "ci_DeletionTimestamp intents \<noteq> None"
    and nf: "\<forall>past op. kfaults env past op = None"
    by blast+
  note e1 = clientGetClientIntents_found [OF get]
  have nf1: "\<forall>past op. kfaults env1 past op = None"
    using nf by (simp add: e1)
  have same: "kafkaServers env1 = kafkaServers env" "protectedServices env1 = protectedServices env"
    "brokerACLs env1 = brokerACLs env" "kcalls env1 = kcalls env @ [OpGetClientIntents req]"
    by (simp_all add: e1)
  note rm = mapErrOver_remove_no_fault [OF nf1, of r intents spec "kafkaServers env1" "tlsSource env1",
              unfolded same]
  have rec: "KafkaACLReconciler_Reconcile r req env
             = ((\<lparr>Requeue = False\<rparr>, None), snd (RemoveACLs r intents spec env1))"
    using rm terminating_reconcile_is_removal [OF get spec del, of r]
    by (simp add: handleIntentsDeletion_def RemoveACLs_def MapErr_def same split: prod.splits option.splits)
  show "fst (KafkaACLReconciler_Reconcile r req env) = (\<lparr>Requeue = False\<rparr>, None)"
    by (simp add: rec)
  show "brokerACLs (snd (KafkaACLReconciler_Reconcile r req env))
             = filter (\<lambda>entry. fst entry \<notin> set (map fst (kafkaServers env))
                         \<or> fst (snd entry) \<noteq> (cspec_ServiceName spec, ci_Namespace intents))
                      (brokerACLs env)"
    using rm by (simp add: rec RemoveACLs_def MapErr_def same)
  from rm obtain ops where
    "kcalls (snd (RemoveACLs r intents spec env1)) = (kcalls env @ [OpGetClientIntents req]) @ ops"
    "\<forall>server \<in> set (map fst (kafkaServers env)).
        OpOpenAdmin server (enableKafkaACLCreation r)
            (server \<in> set (protectedServices env) \<or> enforcementDefaultState r) \<in> set ops
        \<and> OpRemoveClientIntents server (cspec_ServiceName spec) (ci_Namespace intents) \<in> set ops"
    unfolding RemoveACLs_def MapErr_def same by blast
  then show "\<forall>server \<in> set (map fst (kafkaServers env)).
               OpOpenAdmin server (enableKafkaACLCreation r)
                   (server \<in> set (protectedServices env) \<or> enforcementDefaultState r)
                 \<in> set (drop (length (kcalls env)) (kcalls (snd (KafkaACLReconciler_Reconcile r req env))))
               \<and> OpRemoveClientIntents server (cspec_ServiceName spec) (ci_Namespace intents)
                 \<in> set (drop (length (kcalls env)) (kcalls (snd (KafkaACLReconciler_Reconcile r req env))))"
    by (simp add: rec)
next
  assume h: "clientGetClientIntents req env = ((None, Some intents), env1)
      \<and> ci_Spec intents = Some spec
      \<and> ci_DeletionTimestamp intents = None
      \<and> operatorPodNamespace r \<noteq> ci_Namespace intents
      \<and> b \<in> set (map fst (kafkaServers env))
      \<and> \<not> enforcementDefaultState r \<and> b \<notin> set (protectedServices env)
      \<and> (\<forall>past. kfaults env past (OpIsEnforced b) = None)
      \<and> (\<forall>past cr en. kfaults env past (OpOpenAdmin b cr en) = None)"
  then have get: "clientGetClientIntents req env = ((None, Some intents), env1)"
    and spec: "ci_Spec intents = Some spec" and act: "ci_DeletionTimestamp intents = None"
    and nonop: "operatorPodNamespace r \<noteq> ci_Namespace intents"
    and conf: "b \<in> set (map fst (kafkaServers env))"
    and off: "\<not> enforcementDefaultState r" "b \<notin> set (protectedServices env)"
    and look: "\<forall>past. kfaults env past (OpIsEnforced b) = None"
    and opn: "\<forall>past cr en. kfaults env past (OpOpenAdmin b cr en) = None"
    by blast+
  define ibs where "ibs = getIntentsByServer (ci_Namespace intents) (cspec_Calls spec)"
  define m where "m = mapErrOver (applyACLsOnServer r intents spec ibs) (kafkaServers env1) (tlsSource env1) env1"
  note e1 = clientGetClientIntents_found [OF get]
  have same: "kafkaServers env1 = kafkaServers env" "protectedServices env1 = protectedServices env"
    "brokerACLs env1 = brokerACLs env" "kcalls env1 = kcalls env @ [OpGetClientIntents req]"
    "kfaults env1 = kfaults env"
    by (simp_all add: e1)
  have fin: "kcalls (snd (KafkaACLReconciler_Reconcile r req env)) = kcalls (snd m)"
    and acl: "brokerACLs (snd (KafkaACLReconciler_Reconcile r req env)) = brokerACLs (snd m)"
    using active_reconcile_is_apply(2) [OF get spec act nonop]
          applyAcls_result [of r intents spec env1] applyACLs_result [of r intents spec env1]
    unfolding ibs_def [symmetric] m_def [symmetric] by simp_all
  from mapErrOver_apply_calls [of r intents spec ibs "kafkaServers env1" "tlsSource env1" env1]
  obtain ops where o: "kcalls (snd m) = kcalls env1 @ ops"
    and q: "\<forall>s \<in> set (map fst (kafkaServers env)).
           (\<forall>past. kfaults env past (OpIsEnforced s) = None)
           \<longrightarrow> OpOpenAdmin s (enableKafkaACLCreation r)
                 (s \<in> set (protectedServices env) \<or> enforcementDefaultState r) \<in> set ops"
    and ap: "\<forall>s \<in> set (map fst (kafkaServers env)).
           (\<forall>past. kfaults env past (OpIsEnforced s) = None)
            \<and> (\<forall>past cr en. kfaults env past (OpOpenAdmin s cr en) = None)
           \<longrightarrow> OpApplyClientIntents s (cspec_ServiceName spec) (ci_Namespace intents) (intentsFor ibs s) \<in> set ops"
    unfolding m_def same by blast
  have new: "drop (length (kcalls env)) (kcalls (snd (KafkaACLReconciler_Reconcile r req env)))
             = OpGetClientIntents req # ops"
    by (simp add: fin o same)
  show "OpOpenAdmin b (enableKafkaACLCreation r) False
           \<in> set (drop (length (kcalls env)) (kcalls (snd (KafkaACLReconciler_Reconcile r req env))))"
    using q conf look off by (auto simp: new)
  show "OpApplyClientIntents b (cspec_ServiceName spec) (ci_Namespace intents)
               (intentsFor (getIntentsByServer (ci_Namespace intents) (cspec_Calls spec)) b)
           \<in> set (drop (length (kcalls env)) (kcalls (snd (KafkaACLReconciler_Reconcile r req env))))"
    using ap conf look opn by (auto simp: new ibs_def)
  show "\<forall>entry \<in> set (brokerACLs (snd (KafkaACLReconciler_Reconcile r req env))).
               fst entry = b \<longrightarrow> entry \<in> set (brokerACLs env)"
  proof (intro ballI impI)
    fix entry
    assume "entry \<in> set (brokerACLs (snd (KafkaACLReconciler_Reconcile r req env)))" and "fst entry = b"
    with off mapErrOver_apply_grants [of entry r intents spec ibs "kafkaServers env1" "tlsSource env1" env1]
    show "entry \<in> set (brokerACLs env)"
      unfolding acl m_def same by auto
  qed
qed

theorem enforcement_never_gates_removal_witness:
  "fst (clientGetClientIntents (''ns1'', ''client-intents'')
          (kafkaEnvOf [terminatingClientIntents] [clientGrant] kNoFaults))
     = (None, Some terminatingClientIntents)
   \<and> ci_Spec terminatingClientIntents = Some kafkaSpec
   \<and> ci_DeletionTimestamp terminatingClientIntents \<noteq> None
   \<and> (\<forall>past op. kfaults (kafkaEnvOf [terminatingClientIntents] [clientGrant] kNoFaults) past op = None)
   \<and> fst (KafkaACLReconciler_Reconcile operatorElsewhere (''ns1'', ''client-intents'')
            (kafkaEnvOf [terminatingClientIntents] [clientGrant] kNoFaults)) = (\<lparr>Requeue = False\<rparr>, None)
   \<and> OpOpenAdmin (''ns1'', ''kafka'') True False
       \<in> set (kcalls (snd (KafkaACLReconciler_Reconcile operatorElsewhere (''ns1'', ''client-intents'')
            (kafkaEnvOf [terminatingClientIntents] [clientGrant] kNoFaults))))
   \<and> OpRemoveClientIntents (''ns1'', ''kafka'') ''client'' ''ns1''
       \<in> set (kcalls (snd (KafkaACLReconciler_Reconcile operatorElsewhere (''ns1'', ''client-intents'')
            (kafkaEnvOf [terminatingClientIntents] [clientGrant] kNoFaults))))
   \<and> OpRemoveClientIntents (''ns1'', ''kafka2'') ''client'' ''ns1''
       \<in> set (kcalls (snd (KafkaACLReconciler_Reconcile operatorElsewhere (''ns1'', ''client-intents'')
            (kafkaEnvOf [terminatingClientIntents] [clientGrant] kNoFaults))))
   \<and> brokerACLs (snd (KafkaACLReconciler_Reconcile operatorElsewhere (''ns1'', ''client-intents'')
            (kafkaEnvOf [terminatingClientIntents] [clientGrant] kNoFaults))) = []
   \<and> fst (clientGetClientIntents (''ns1'', ''client-intents'') (kafkaEnvOf [activeClientIntents] [] kNoFaults))
     = (None, Some activeClientIntents)
   \<and> ci_Spec activeClientIntents = Some kafkaSpec
   \<and> ci_DeletionTimestamp activeClientIntents = None
   \<and> operatorPodNamespace operatorElsewhere \<noteq> ci_Namespace activeClientIntents
   \<and> (''ns1'', ''kafka'') \<in> set (map fst (kafkaServers (kafkaEnvOf [activeClientIntents] [] kNoFaults)))
   \<and> \<not> enforcementDefaultState operatorElsewhere
   \<and> (''ns1'', ''kafka'') \<notin> set (protectedServices (kafkaEnvOf [activeClientIntents] [] kNoFaults))
   \<and> (\<forall>past. kfaults (kafkaEnvOf [activeClientIntents] [] kNoFaults) past (OpIsEnforced (''ns1'', ''kafka'')) = None)
   \<and> (\<forall>past cr en. kfaults (kafkaEnvOf [activeClientIntents] [] kNoFaults) past
                       (OpOpenAdmin (''ns1'', ''kafka'') cr en) = None)
   \<and> OpOpenAdmin (''ns1'', ''kafka'') True False
       \<in> set (kcalls (snd (KafkaACLReconciler_Reconcile operatorElsewhere (''ns1'', ''client-intents'')
            (kafkaEnvOf [activeClientIntents] [] kNoFaults))))
   \<and> OpApplyClientIntents (''ns1'', ''kafka'') ''client'' ''ns1'' [kafkaCall]
       \<in> set (kcalls (snd (KafkaACLReconciler_Reconcile operatorElsewhere (''ns1'', ''client-intents'')
            (kafkaEnvOf [activeClientIntents] [] kNoFaults))))
   \<and> clientGrant \<notin> set (brokerACLs (snd (KafkaACLReconciler_Reconcile operatorElsewhere
            (''ns1'', ''client-intents'') (kafkaEnvOf [activeClientIntents] [] kNoFaults))))"
proof -
  let ?req = "(''ns1'', ''client-intents'')"
  let ?b = "(''ns1'', ''kafka'')"
  let ?envT = "kafkaEnvOf [terminatingClientIntents] [clientGrant] kNoFaults"
  let ?envA = "kafkaEnvOf [activeClientIntents] [] kNoFaults"
  have gT: "fst (clientGetClientIntents ?req ?envT) = (None, Some terminatingClientIntents)"
    by (simp add: clientGetClientIntents_def kissue_def clientIntentsKey_def kafka_example_defs)
  have gT': "clientGetClientIntents ?req ?envT
             = ((None, Some terminatingClientIntents), snd (clientGetClientIntents ?req ?envT))"
    using gT by (simp add: prod_eq_iff)
  have sT: "ci_Spec terminatingClientIntents = Some kafkaSpec"
    and dT: "ci_DeletionTimestamp terminatingClientIntents \<noteq> None"
    by (simp_all add: terminatingClientIntents_def)
  have nf: "\<forall>past op. kfaults ?envT past op = None"
    by (simp add: kafkaEnvOf_def kNoFaults_def)
  have who: "cspec_ServiceName kafkaSpec = ''client''" "ci_Namespace terminatingClientIntents = ''ns1''"
    "ci_Namespace activeClientIntents = ''ns1''" "enableKafkaACLCreation operatorElsewhere = True"
    "enforcementDefaultState operatorElsewhere = False"
    by (simp_all add: kafkaSpec_def terminatingClientIntents_def activeClientIntents_def operatorElsewhere_def)
  note rm = enforcement_never_gates_removal
              [of ?req ?envT terminatingClientIntents "snd (clientGetClientIntents ?req ?envT)" kafkaSpec
                  operatorElsewhere,
               THEN conjunct1, THEN mp, OF conjI [OF gT' conjI [OF sT conjI [OF dT nf]]]]
  have r1: "fst (KafkaACLReconciler_Reconcile operatorElsewhere ?req ?envT) = (\<lparr>Requeue = False\<rparr>, None)"
    using rm by blast
  have r2: "OpOpenAdmin ?b True False
       \<in> set (kcalls (snd (KafkaACLReconciler_Reconcile operatorElsewhere ?req ?envT)))"
    using rm by (simp add: kafkaEnvOf_def twoBrokers_def who)
  have r3: "OpRemoveClientIntents ?b ''client'' ''ns1''
       \<in> set (kcalls (snd (KafkaACLReconciler_Reconcile operatorElsewhere ?req ?envT)))"
    using rm by (simp add: kafkaEnvOf_def twoBrokers_def who)
  have r4: "OpRemoveClientIntents (''ns1'', ''kafka2'') ''client'' ''ns1''
       \<in> set (kcalls (snd (KafkaACLReconciler_Reconcile operatorElsewhere ?req ?envT)))"
    using rm by (simp add: kafkaEnvOf_def twoBrokers_def who)
  have r5: "brokerACLs (snd (KafkaACLReconciler_Reconcile operatorElsewhere ?req ?envT)) = []"
    using rm by (simp add: kafkaEnvOf_def twoBrokers_def who clientGrant_def)
  have gA: "fst (clientGetClientIntents ?req ?envA) = (None, Some activeClientIntents)"
    by (simp add: clientGetClientIntents_def kissue_def clientIntentsKey_def kafka_example_defs)
  have gA': "clientGetClientIntents ?req ?envA
             = ((None, Some activeClientIntents), snd (clientGetClientIntents ?req ?envA))"
    using gA by (simp add: prod_eq_iff)
  have sA: "ci_Spec activeClientIntents = Some kafkaSpec"
    and dA: "ci_DeletionTimestamp activeClientIntents = None"
    and nonop: "operatorPodNamespace operatorElsewhere \<noteq> ci_Namespace activeClientIntents"
    by (simp_all add: activeClientIntents_def operatorElsewhere_def)
  have conf: "?b \<in> set (map fst (kafkaServers ?envA))"
    by (simp add: kafkaEnvOf_def twoBrokers_def)
  have off1: "\<not> enforcementDefaultState operatorElsewhere"
    and off2: "?b \<notin> set (protectedServices ?envA)"
    by (simp_all add: operatorElsewhere_def kafkaEnvOf_def)
  have look: "\<forall>past. kfaults ?envA past (OpIsEnforced ?b) = None"
    and opn: "\<forall>past cr en. kfaults ?envA past (OpOpenAdmin ?b cr en) = None"
    by (simp_all add: kafkaEnvOf_def kNoFaults_def)
  have mine: "intentsFor (getIntentsByServer ''ns1'' (cspec_Calls kafkaSpec)) ?b
              = [kafkaCall]"
    by (simp add: intentsFor_def getIntentsByServer_def GetTargetServerName_def
          GetTargetServerNamespace_def kafkaSpec_def kafkaCall_def activeClientIntents_def)
  have nocalls: "kcalls ?envA = []"
    by (simp add: kafkaEnvOf_def)
  note ap = enforcement_never_gates_removal
              [of ?req ?envA activeClientIntents "snd (clientGetClientIntents ?req ?envA)" kafkaSpec
                  operatorElsewhere ?b,
               THEN conjunct2, THEN mp,
               OF conjI [OF gA' conjI [OF sA conjI [OF dA conjI [OF nonop conjI [OF conf
                  conjI [OF off1 conjI [OF off2 conjI [OF look opn]]]]]]]]]
  have a1: "OpOpenAdmin ?b True False
       \<in> set (kcalls (snd (KafkaACLReconciler_Reconcile operatorElsewhere ?req ?envA)))"
    using ap by (simp add: nocalls who)
  have a2: "OpApplyClientIntents ?b ''client'' ''ns1'' [kafkaCall]
       \<in> set (kcalls (snd (KafkaACLReconciler_Reconcile operatorElsewhere ?req ?envA)))"
    using ap by (simp add: nocalls who mine)
  have "fst clientGrant = ?b" and "clientGrant \<notin> set (brokerACLs ?envA)"
    by (simp_all add: clientGrant_def kafkaEnvOf_def)
  with ap have a3: "clientGrant \<notin> set (brokerACLs (snd (KafkaACLReconciler_Reconcile operatorElsewhere ?req ?envA)))"
    by blast
  from gT sT dT nf r1 r2 r3 r4 r5 gA sA dA nonop conf off1 off2 look opn a1 a2 a3
  show ?thesis by (intro conjI) (assumption+)
qed

subsection \<open>Failures of one broker on the apply path\<close>

text \<open>
  C5. Reconcile of an active intent object that is found, has a Spec and lives outside the
  namespace of the operator. When the enforcement lookup for a configured broker \<open>b\<close>
  succeeds and every connection to \<open>b\<close> fails: Reconcile records the warning event of a
  failed connection, never calls \<open>ApplyClientIntents\<close> on \<open>b\<close>, still resolves
  enforcement for every configured broker and calls \<open>ApplyClientIntents\<close> on each broker
  whose lookup and connection succeed, and returns an error. When the connection succeeds
  and \<open>ApplyClientIntents\<close> fails on \<open>b\<close>: Reconcile records the warning event of a failed
  apply on the broker and the warning event of failed ACL application, and returns an
  error. An error returned by Reconcile makes the controller runtime run it again.
\<close>

theorem broker_failures_on_apply:
  "(clientGetClientIntents req env = ((None, Some intents), env1)
      \<and> ci_Spec intents = Some spec
      \<and> ci_DeletionTimestamp intents = None
      \<and> operatorPodNamespace r \<noteq> ci_Namespace intents
      \<and> b \<in> set (map fst (kafkaServers env))
      \<and> (\<forall>past. kfaults env past (OpIsEnforced b) = None)
      \<and> (\<forall>past cr en. kfaults env past (OpOpenAdmin b cr en) \<noteq> None)
     \<longrightarrow> (Warning, ReasonCouldNotConnectToKafkaServer, clientIntentsKey intents)
            \<in> set (drop (length (events env)) (events (snd (KafkaACLReconciler_Reconcile r req env))))
         \<and> (\<forall>svc ns calls0. OpApplyClientIntents b svc ns calls0
               \<notin> set (drop (length (kcalls env)) (kcalls (snd (KafkaACLReconciler_Reconcile r req env)))))
         \<and> (\<forall>s \<in> set (map fst (kafkaServers env)).
               OpIsEnforced s
                 \<in> set (drop (length (kcalls env)) (kcalls (snd (KafkaACLReconciler_Reconcile r req env)))))
         \<and> (\<forall>s \<in> set (map fst (kafkaServers env)).
               (\<forall>past. kfaults env past (OpIsEnforced s) = None)
                \<and> (\<forall>past cr en. kfaults env past (OpOpenAdmin s cr en) = None)
               \<longrightarrow> OpApplyClientIntents s (cspec_ServiceName spec) (ci_Namespace intents)
                      (intentsFor (getIntentsByServer (ci_Namespace intents) (cspec_Calls spec)) s)
                     \<in> set (drop (length (kcalls env)) (kcalls (snd (KafkaACLReconciler_Reconcile r req env)))))
         \<and> fst (fst (KafkaACLReconciler_Reconcile r req env)) = \<lparr>Requeue = False\<rparr>
         \<and> snd (fst (KafkaACLReconciler_Reconcile r req env)) \<noteq> None)
   \<and> (clientGetClientIntents req env = ((None, Some intents), env1)
      \<and> ci_Spec intents = Some spec
      \<and> ci_DeletionTimestamp intents = None
      \<and> operatorPodNamespace r \<noteq> ci_Namespace intents
      \<and> b \<in> set (map fst (kafkaServers env))
      \<and> (\<forall>past. kfaults env past (OpIsEnforced b) = None)
      \<and> (\<forall>past cr en. kfaults env past (OpOpenAdmin b cr en) = None)
      \<and> (\<forall>past svc ns calls0. kfaults env past (OpApplyClientIntents b svc ns calls0) \<noteq> None)
     \<longrightarrow> (Warning, ReasonCouldNotApplyIntentsOnKafkaServer, clientIntentsKey intents)
            \<in> set (drop (length (events env)) (events (snd (KafkaACLReconciler_Reconcile r req env))))
         \<and> (Warning, ReasonApplyingKafkaACLsFailed, clientIntentsKey intents)
            \<in> set (drop (length (events env)) (events (snd (KafkaACLReconciler_Reconcile r req env))))
         \<and> fst (fst (KafkaACLReconciler_Reconcile r req env)) = \<lparr>Requeue = False\<rparr>
         \<and> snd (fst (KafkaACLReconciler_Reconcile r req env)) \<noteq> None)"
proof -
  define ibs where "ibs = getIntentsByServer (ci_Namespace intents) (cspec_Calls spec)"
  define m where "m = mapErrOver (applyACLsOnServer r intents spec ibs) (kafkaServers env1) (tlsSource env1) env1"
  define R where "R = KafkaACLReconciler_Reconcile r req env"
  have common: "fst (fst R) = \<lparr>Requeue = False\<rparr>
        \<and> snd (fst R) = fst m
        \<and> kcalls (snd R) = kcalls (snd m)
        \<and> (\<exists>evs. events (snd R) = events (snd m) @ evs
              \<and> (fst m \<noteq> None \<longrightarrow> (Warning, ReasonApplyingKafkaACLsFailed, clientIntentsKey intents) \<in> set evs))
        \<and> kafkaServers env1 = kafkaServers env \<and> kfaults env1 = kfaults env
        \<and> kcalls env1 = kcalls env @ [OpGetClientIntents req] \<and> events env1 = events env"
    if get: "clientGetClientIntents req env = ((None, Some intents), env1)"
      and spec: "ci_Spec intents = Some spec" and act: "ci_DeletionTimestamp intents = None"
      and nonop: "operatorPodNamespace r \<noteq> ci_Namespace intents"
  proof -
    note e1 = clientGetClientIntents_found [OF get]
    note rec = active_reconcile_is_apply [OF get spec act nonop]
    from applyACLs_result [of r intents spec env1]
    have r1: "snd (fst (applyACLs r intents spec env1)) = fst m"
      and k1: "kcalls (snd (applyACLs r intents spec env1)) = kcalls (snd m)"
      and v1: "\<exists>evs. events (snd (applyACLs r intents spec env1)) = events (snd m) @ evs"
      unfolding ibs_def [symmetric] m_def [symmetric] by blast+
    from v1 obtain evsA where vA: "events (snd (applyACLs r intents spec env1)) = events (snd m) @ evsA"
      by blast
    from applyAcls_result [of r intents spec env1]
    obtain evsB where r2: "snd (fst (applyAcls r intents spec env1)) = snd (fst (applyACLs r intents spec env1))"
      and k2: "kcalls (snd (applyAcls r intents spec env1)) = kcalls (snd (applyACLs r intents spec env1))"
      and vB: "events (snd (applyAcls r intents spec env1)) = events (snd (applyACLs r intents spec env1)) @ evsB"
      and wB: "snd (fst (applyACLs r intents spec env1)) \<noteq> None
             \<longrightarrow> (Warning, ReasonApplyingKafkaACLsFailed, clientIntentsKey intents) \<in> set evsB"
      by blast
    have "events (snd R) = events (snd m) @ (evsA @ evsB)
          \<and> (fst m \<noteq> None \<longrightarrow> (Warning, ReasonApplyingKafkaACLsFailed, clientIntentsKey intents) \<in> set (evsA @ evsB))"
      using rec(2) vA vB wB r1 by (simp add: R_def)
    then have "\<exists>evs. events (snd R) = events (snd m) @ evs
              \<and> (fst m \<noteq> None \<longrightarrow> (Warning, ReasonApplyingKafkaACLsFailed, clientIntentsKey intents) \<in> set evs)"
      by blast
    moreover have "fst (fst R) = \<lparr>Requeue = False\<rparr>" "snd (fst R) = fst m" "kcalls (snd R) = kcalls (snd m)"
      using rec r1 r2 k1 k2 by (simp_all add: R_def)
    ultimately show ?thesis
      by (simp add: e1)
  qed
  show ?thesis
    unfolding ibs_def [symmetric] R_def [symmetric]
  proof (intro conjI impI)
    assume h: "clientGetClientIntents req env = ((None, Some intents), env1)
      \<and> ci_Spec intents = Some spec
      \<and> ci_DeletionTimestamp intents = None
      \<and> operatorPodNamespace r \<noteq> ci_Namespace intents
      \<and> b \<in> set (map fst (kafkaServers env))
      \<and> (\<forall>past. kfaults env past (OpIsEnforced b) = None)
      \<and> (\<forall>past cr en. kfaults env past (OpOpenAdmin b cr en) \<noteq> None)"
    then have conf: "b \<in> set (map fst (kafkaServers env))"
      and look: "\<forall>past. kfaults env past (OpIsEnforced b) = None"
      and fails: "\<forall>past cr en. kfaults env past (OpOpenAdmin b cr en) \<noteq> None"
      and pre: "clientGetClientIntents req env = ((None, Some intents), env1)"
        "ci_Spec intents = Some spec" "ci_DeletionTimestamp intents = None"
        "operatorPodNamespace r \<noteq> ci_Namespace intents"
      by blast+
    from common [OF pre] obtain evs where c: "fst (fst R) = \<lparr>Requeue = False\<rparr>" "snd (fst R) = fst m"
        "kcalls (snd R) = kcalls (snd m)" "events (snd R) = events (snd m) @ evs"
        "kafkaServers env1 = kafkaServers env" "kfaults env1 = kfaults env"
        "kcalls env1 = kcalls env @ [OpGetClientIntents req]" "events env1 = events env"
      by (elim conjE exE)
    from mapErrOver_apply_connect_failure [of b "kafkaServers env1" env1 r intents spec ibs "tlsSource env1"]
         conf look fails
    obtain evs0 where f: "fst m \<noteq> None" and ev0: "events (snd m) = events env @ evs0"
      and w: "(Warning, ReasonCouldNotConnectToKafkaServer, clientIntentsKey intents) \<in> set evs0"
      unfolding m_def c(5,6,8) by blast
    from mapErrOver_apply_calls [of r intents spec ibs "kafkaServers env1" "tlsSource env1" env1]
    obtain ops where o: "kcalls (snd m) = kcalls env1 @ ops"
      and enf: "\<forall>s \<in> set (map fst (kafkaServers env)). OpIsEnforced s \<in> set ops"
      and opened: "\<forall>b svc ns calls0. OpApplyClientIntents b svc ns calls0 \<in> set ops
           \<longrightarrow> (\<exists>past cr en. kfaults env past (OpOpenAdmin b cr en) = None)"
      and applied: "\<forall>s \<in> set (map fst (kafkaServers env)).
           (\<forall>past. kfaults env past (OpIsEnforced s) = None)
            \<and> (\<forall>past cr en. kfaults env past (OpOpenAdmin s cr en) = None)
           \<longrightarrow> OpApplyClientIntents s (cspec_ServiceName spec) (ci_Namespace intents) (intentsFor ibs s) \<in> set ops"
      unfolding m_def c(5,6) by blast
    have new: "drop (length (kcalls env)) (kcalls (snd R)) = OpGetClientIntents req # ops"
      by (simp add: c(3,7) o)
    have newev: "drop (length (events env)) (events (snd R)) = evs0 @ evs"
      by (simp add: c(4) ev0)
    show "(Warning, ReasonCouldNotConnectToKafkaServer, clientIntentsKey intents)
            \<in> set (drop (length (events env)) (events (snd R)))"
      using w by (simp add: newev)
    show "\<forall>svc ns calls0. OpApplyClientIntents b svc ns calls0
               \<notin> set (drop (length (kcalls env)) (kcalls (snd R)))"
    proof (intro allI notI)
      fix svc ns calls0
      assume "OpApplyClientIntents b svc ns calls0 \<in> set (drop (length (kcalls env)) (kcalls (snd R)))"
      then have "OpApplyClientIntents b svc ns calls0 \<in> set ops"
        by (simp add: new)
      with opened fails show False by blast
    qed
    show "\<forall>s \<in> set (map fst (kafkaServers env)).
               OpIsEnforced s \<in> set (drop (length (kcalls env)) (kcalls (snd R)))"
      using enf by (simp add: new)
    show "\<forall>s \<in> set (map fst (kafkaServers env)).
               (\<forall>past. kfaults env past (OpIsEnforced s) = None)
                \<and> (\<forall>past cr en. kfaults env past (OpOpenAdmin s cr en) = None)
               \<longrightarrow> OpApplyClientIntents s (cspec_ServiceName spec) (ci_Namespace intents) (intentsFor ibs s)
                     \<in> set (drop (length (kcalls env)) (kcalls (snd R)))"
      using applied by (simp add: new)
    show "fst (fst R) = \<lparr>Requeue = False\<rparr>" by (rule c(1))
    show "snd (fst R) \<noteq> None" using f c(2) by simp
  next
    assume h: "clientGetClientIntents req env = ((None, Some intents), env1)
      \<and> ci_Spec intents = Some spec
      \<and> ci_DeletionTimestamp intents = None
      \<and> operatorPodNamespace r \<noteq> ci_Namespace intents
      \<and> b \<in> set (map fst (kafkaServers env))
      \<and> (\<forall>past. kfaults env past (OpIsEnforced b) = None)
      \<and> (\<forall>past cr en. kfaults env past (OpOpenAdmin b cr en) = None)
      \<and> (\<forall>past svc ns calls0. kfaults env past (OpApplyClientIntents b svc ns calls0) \<noteq> None)"
    then have conf: "b \<in> set (map fst (kafkaServers env))"
      and look: "\<forall>past. kfaults env past (OpIsEnforced b) = None"
      and opn: "\<forall>past cr en. kfaults env past (OpOpenAdmin b cr en) = None"
      and fails: "\<forall>past svc ns calls0. kfaults env past (OpApplyClientIntents b svc ns calls0) \<noteq> None"
      and pre: "clientGetClientIntents req env = ((None, Some intents), env1)"
        "ci_Spec intents = Some spec" "ci_DeletionTimestamp intents = None"
        "operatorPodNamespace r \<noteq> ci_Namespace intents"
      by blast+
    from common [OF pre] obtain evs where c: "fst (fst R) = \<lparr>Requeue = False\<rparr>" "snd (fst R) = fst m"
        "kcalls (snd R) = kcalls (snd m)" "events (snd R) = events (snd m) @ evs"
        "fst m \<noteq> None \<longrightarrow> (Warning, ReasonApplyingKafkaACLsFailed, clientIntentsKey intents) \<in> set evs"
        "kafkaServers env1 = kafkaServers env" "kfaults env1 = kfaults env"
        "kcalls env1 = kcalls env @ [OpGetClientIntents req]" "events env1 = events env"
      by (elim conjE exE)
    from mapErrOver_apply_apply_failure [of b "kafkaServers env1" env1 r intents spec ibs "tlsSource env1"]
         conf look opn fails
    obtain evs0 where f: "fst m \<noteq> None" and ev0: "events (snd m) = events env @ evs0"
      and w: "(Warning, ReasonCouldNotApplyIntentsOnKafkaServer, clientIntentsKey intents) \<in> set evs0"
      unfolding m_def c(6,7,9) by blast
    have newev: "drop (length (events env)) (events (snd R)) = evs0 @ evs"
      by (simp add: c(4) ev0)
    show "(Warning, ReasonCouldNotApplyIntentsOnKafkaServer, clientIntentsKey intents)
            \<in> set (drop (length (events env)) (events (snd R)))"
      using w by (simp add: newev)
    show "(Warning, ReasonApplyingKafkaACLsFailed, clientIntentsKey intents)
            \<in> set (drop (length (events env)) (events (snd R)))"
      using f c(5) by (simp add: newev)
    show "fst (fst R) = \<lparr>Requeue = False\<rparr>" by (rule c(1))
    show "snd (fst R) \<noteq> None" using f c(2) by simp
  qed
qed

theorem broker_failures_on_apply_witness:
  "fst (clientGetClientIntents (''ns1'', ''client-intents'') (kafkaEnvOf [activeClientIntents] [] connectToKafkaFails))
     = (None, Some activeClientIntents)
   \<and> ci_Spec activeClientIntents = Some kafkaSpec
   \<and> ci_DeletionTimestamp activeClientIntents = None
   \<and> operatorPodNamespace operatorElsewhere \<noteq> ci_Namespace activeClientIntents
   \<and> (''ns1'', ''kafka'') \<in> set (map fst (kafkaServers (kafkaEnvOf [activeClientIntents] [] connectToKafkaFails)))
   \<and> (\<forall>past. kfaults (kafkaEnvOf [activeClientIntents] [] connectToKafkaFails) past
                 (OpIsEnforced (''ns1'', ''kafka'')) = None)
   \<and> (\<forall>past cr en. kfaults (kafkaEnvOf [activeClientIntents] [] connectToKafkaFails) past
                 (OpOpenAdmin (''ns1'', ''kafka'') cr en) \<noteq> None)
   \<and> (Warning, ReasonCouldNotConnectToKafkaServer, (''ns1'', ''client-intents''))
       \<in> set (events (snd (KafkaACLReconciler_Reconcile operatorElsewhere (''ns1'', ''client-intents'')
                              (kafkaEnvOf [activeClientIntents] [] connectToKafkaFails))))
   \<and> OpApplyClientIntents (''ns1'', ''kafka'') ''client'' ''ns1'' [kafkaCall]
       \<notin> set (kcalls (snd (KafkaACLReconciler_Reconcile operatorElsewhere (''ns1'', ''client-intents'')
                              (kafkaEnvOf [activeClientIntents] [] connectToKafkaFails))))
   \<and> OpApplyClientIntents (''ns1'', ''kafka2'') ''client'' ''ns1'' []
       \<in> set (kcalls (snd (KafkaACLReconciler_Reconcile operatorElsewhere (''ns1'', ''client-intents'')
                              (kafkaEnvOf [activeClientIntents] [] connectToKafkaFails))))
   \<and> snd (fst (KafkaACLReconciler_Reconcile operatorElsewhere (''ns1'', ''client-intents'')
                  (kafkaEnvOf [activeClientIntents] [] connectToKafkaFails))) \<noteq> None
   \<and> fst (clientGetClientIntents (''ns1'', ''client-intents'') (kafkaEnvOf [activeClientIntents] [] applyOnKafkaFails))
     = (None, Some activeClientIntents)
   \<and> (''ns1'', ''kafka'') \<in> set (map fst (kafkaServers (kafkaEnvOf [activeClientIntents] [] applyOnKafkaFails)))
   \<and> (\<forall>past. kfaults (kafkaEnvOf [activeClientIntents] [] applyOnKafkaFails) past
                 (OpIsEnforced (''ns1'', ''kafka'')) = None)
   \<and> (\<forall>past cr en. kfaults (kafkaEnvOf [activeClientIntents] [] applyOnKafkaFails) past
                 (OpOpenAdmin (''ns1'', ''kafka'') cr en) = None)
   \<and> (\<forall>past svc ns calls0. kfaults (kafkaEnvOf [activeClientIntents] [] applyOnKafkaFails) past
                 (OpApplyClientIntents (''ns1'', ''kafka'') svc ns calls0) \<noteq> None)
   \<and> (Warning, ReasonCouldNotApplyIntentsOnKafkaServer, (''ns1'', ''client-intents''))
       \<in> set (events (snd (KafkaACLReconciler_Reconcile operatorElsewhere (''ns1'', ''client-intents'')
                              (kafkaEnvOf [activeClientIntents] [] applyOnKafkaFails))))
   \<and> (Warning, ReasonApplyingKafkaACLsFailed, (''ns1'', ''client-intents''))
       \<in> set (events (snd (KafkaACLReconciler_Reconcile operatorElsewhere (''ns1'', ''client-intents'')
                              (kafkaEnvOf [activeClientIntents] [] applyOnKafkaFails))))
   \<and> snd (fst (KafkaACLReconciler_Reconcile operatorElsewhere (''ns1'', ''client-intents'')
                  (kafkaEnvOf [activeClientIntents] [] applyOnKafkaFails))) \<noteq> None"
proof -
  let ?req = "(''ns1'', ''client-intents'')"
  let ?envC = "kafkaEnvOf [activeClientIntents] [] connectToKafkaFails"
  let ?envA = "kafkaEnvOf [activeClientIntents] [] applyOnKafkaFails"
  let ?b = "(''ns1'', ''kafka'')"
  have gC: "fst (clientGetClientIntents ?req ?envC) = (None, Some activeClientIntents)"
    by (simp add: clientGetClientIntents_def kissue_def clientIntentsKey_def kafka_example_defs)
  have gC': "clientGetClientIntents ?req ?envC
             = ((None, Some activeClientIntents), snd (clientGetClientIntents ?req ?envC))"
    using gC by (simp add: prod_eq_iff)
  have gA: "fst (clientGetClientIntents ?req ?envA) = (None, Some activeClientIntents)"
    by (simp add: clientGetClientIntents_def kissue_def clientIntentsKey_def kafka_example_defs)
  have gA': "clientGetClientIntents ?req ?envA
             = ((None, Some activeClientIntents), snd (clientGetClientIntents ?req ?envA))"
    using gA by (simp add: prod_eq_iff)
  have sA: "ci_Spec activeClientIntents = Some kafkaSpec"
    and dA: "ci_DeletionTimestamp activeClientIntents = None"
    and nonop: "operatorPodNamespace operatorElsewhere \<noteq> ci_Namespace activeClientIntents"
    by (simp_all add: activeClientIntents_def operatorElsewhere_def)
  have c1: "?b \<in> set (map fst (kafkaServers ?envC))"
    by (simp add: kafkaEnvOf_def twoBrokers_def)
  have c2: "\<forall>past. kfaults ?envC past (OpIsEnforced ?b) = None"
    by (simp add: kafkaEnvOf_def connectToKafkaFails_def)
  have c3: "\<forall>past cr en. kfaults ?envC past (OpOpenAdmin ?b cr en) \<noteq> None"
    by (simp add: kafkaEnvOf_def connectToKafkaFails_def)
  have other: "(''ns1'', ''kafka2'') \<in> set (map fst (kafkaServers ?envC))
      \<and> (\<forall>past. kfaults ?envC past (OpIsEnforced (''ns1'', ''kafka2'')) = None)
      \<and> (\<forall>past cr en. kfaults ?envC past (OpOpenAdmin (''ns1'', ''kafka2'') cr en) = None)"
    by (simp add: kafkaEnvOf_def twoBrokers_def connectToKafkaFails_def)
  have key: "clientIntentsKey activeClientIntents = (''ns1'', ''client-intents'')"
    by (simp add: clientIntentsKey_def activeClientIntents_def)
  have who: "cspec_ServiceName kafkaSpec = ''client''" "ci_Namespace activeClientIntents = ''ns1''"
    by (simp_all add: kafkaSpec_def activeClientIntents_def)
  have none2: "intentsFor (getIntentsByServer ''ns1'' (cspec_Calls kafkaSpec))
                 (''ns1'', ''kafka2'') = []"
    by (simp add: intentsFor_def getIntentsByServer_def GetTargetServerName_def
          GetTargetServerNamespace_def kafkaSpec_def kafkaCall_def activeClientIntents_def)
  have fresh: "kcalls ?envC = []" "events ?envC = []" "events ?envA = []"
    by (simp_all add: kafkaEnvOf_def)
  note conn = broker_failures_on_apply
                [of ?req ?envC activeClientIntents "snd (clientGetClientIntents ?req ?envC)" kafkaSpec
                    operatorElsewhere ?b,
                 THEN conjunct1, THEN mp,
                 OF conjI [OF gC' conjI [OF sA conjI [OF dA conjI [OF nonop conjI [OF c1 conjI [OF c2 c3]]]]]]]
  have w1: "(Warning, ReasonCouldNotConnectToKafkaServer, (''ns1'', ''client-intents''))
       \<in> set (events (snd (KafkaACLReconciler_Reconcile operatorElsewhere ?req ?envC)))"
    using conn by (simp add: key fresh)
  have w2: "snd (fst (KafkaACLReconciler_Reconcile operatorElsewhere ?req ?envC)) \<noteq> None"
    using conn by blast
  have w3: "OpApplyClientIntents ?b ''client'' ''ns1'' [kafkaCall]
       \<notin> set (kcalls (snd (KafkaACLReconciler_Reconcile operatorElsewhere ?req ?envC)))"
    using conn by (simp add: fresh)
  have w4: "OpApplyClientIntents (''ns1'', ''kafka2'') ''client'' ''ns1'' []
       \<in> set (kcalls (snd (KafkaACLReconciler_Reconcile operatorElsewhere ?req ?envC)))"
    using conn [THEN conjunct2, THEN conjunct2, THEN conjunct2, THEN conjunct1, THEN bspec,
                OF other [THEN conjunct1], THEN mp, OF other [THEN conjunct2]]
    by (simp add: none2 who fresh)
  have a1: "?b \<in> set (map fst (kafkaServers ?envA))"
    by (simp add: kafkaEnvOf_def twoBrokers_def)
  have a2: "\<forall>past. kfaults ?envA past (OpIsEnforced ?b) = None"
    by (simp add: kafkaEnvOf_def applyOnKafkaFails_def)
  have a3: "\<forall>past cr en. kfaults ?envA past (OpOpenAdmin ?b cr en) = None"
    by (simp add: kafkaEnvOf_def applyOnKafkaFails_def)
  have a4: "\<forall>past svc ns calls0. kfaults ?envA past (OpApplyClientIntents ?b svc ns calls0) \<noteq> None"
    by (simp add: kafkaEnvOf_def applyOnKafkaFails_def)
  note app = broker_failures_on_apply
               [of ?req ?envA activeClientIntents "snd (clientGetClientIntents ?req ?envA)" kafkaSpec
                   operatorElsewhere ?b,
                THEN conjunct2, THEN mp,
                OF conjI [OF gA' conjI [OF sA conjI [OF dA conjI [OF nonop conjI [OF a1
                   conjI [OF a2 conjI [OF a3 a4]]]]]]]]
  have v1: "(Warning, ReasonCouldNotApplyIntentsOnKafkaServer, (''ns1'', ''client-intents''))
       \<in> set (events (snd (KafkaACLReconciler_Reconcile operatorElsewhere ?req ?envA)))"
    using app by (simp add: key fresh)
  have v3: "(Warning, ReasonApplyingKafkaACLsFailed, (''ns1'', ''client-intents''))
       \<in> set (events (snd (KafkaACLReconciler_Reconcile operatorElsewhere ?req ?envA)))"
    using app by (simp add: key fresh)
  have v2: "snd (fst (KafkaACLReconciler_Reconcile operatorElsewhere ?req ?envA)) \<noteq> None"
    using app by blast
  from gC sA dA nonop c1 c2 c3 w1 w3 w4 w2 gA a1 a2 a3 a4 v1 v3 v2
  show ?thesis by (intro conjI) (assumption+)
qed

subsection \<open>Resolving the operator's own identity\<close>

text \<open>
  C6 at a failing input: an active intent object in the namespace of the operator pod, and
  a resolver that answers with an error. Reconcile returns the error, as the claim says,
  but the list of recorded events stays empty: no warning event is recorded.
\<close>

theorem resolver_error_records_no_event:
  "KafkaACLReconciler_Reconcile operatorInNs1 (''ns1'', ''client-intents'')
     (kafkaEnvOf [activeClientIntents] [] resolverFails)
   = ((\<lparr>Requeue = False\<rparr>,
       Some (Wrapped ''failed resolving intents operator identity - '' (StatusError InternalError))),
      (kafkaEnvOf [activeClientIntents] [] resolverFails)
        \<lparr>kcalls := [OpGetClientIntents (''ns1'', ''client-intents''),
                    OpGetPodAnnotatedName ''intents-operator'' ''ns1'']\<rparr>)
   \<and> events (snd (KafkaACLReconciler_Reconcile operatorInNs1 (''ns1'', ''client-intents'')
        (kafkaEnvOf [activeClientIntents] [] resolverFails))) = []"
  by (simp add: kafka_defs kafka_example_defs)

section \<open>Reconciling an absent intent object\<close>

text \<open>
  C10: when the lookup of the intent object answers not-found, or the object found has no
  Spec, each of the two reconcilers returns success with no requeue, and the only call it
  has issued is that lookup: the stored objects, the rules, the ACL entries and the events
  are as before, and no admin session was opened.
\<close>

theorem absent_or_specless_intent_is_noop:
  "((IsNotFound (fst (fst (clientGetIntents req c)))
      \<or> (\<exists>obj. fst (clientGetIntents req c) = (None, Some obj) \<and> intents_Spec obj = None))
     \<longrightarrow> NetworkPolicyReconciler_Reconcile req c
          = ((\<lparr>Requeue = False\<rparr>, None), c\<lparr>calls := calls c @ [GetIntents req]\<rparr>))
   \<and> ((IsNotFound (fst (fst (clientGetClientIntents req env)))
      \<or> (\<exists>obj. fst (clientGetClientIntents req env) = (None, Some obj) \<and> ci_Spec obj = None))
     \<longrightarrow> KafkaACLReconciler_Reconcile r req env
          = ((\<lparr>Requeue = False\<rparr>, None), env\<lparr>kcalls := kcalls env @ [OpGetClientIntents req]\<rparr>))"
proof (intro conjI impI)
  assume "IsNotFound (fst (fst (clientGetIntents req c)))
      \<or> (\<exists>obj. fst (clientGetIntents req c) = (None, Some obj) \<and> intents_Spec obj = None)"
  then show "NetworkPolicyReconciler_Reconcile req c
          = ((\<lparr>Requeue = False\<rparr>, None), c\<lparr>calls := calls c @ [GetIntents req]\<rparr>)"
    by (auto simp: NetworkPolicyReconciler_Reconcile_def clientGetIntents_def issue_def IsNotFound_def
          split: option.splits prod.splits)
next
  assume "IsNotFound (fst (fst (clientGetClientIntents req env)))
      \<or> (\<exists>obj. fst (clientGetClientIntents req env) = (None, Some obj) \<and> ci_Spec obj = None)"
  then show "KafkaACLReconciler_Reconcile r req env
          = ((\<lparr>Requeue = False\<rparr>, None), env\<lparr>kcalls := kcalls env @ [OpGetClientIntents req]\<rparr>)"
    by (auto simp: KafkaACLReconciler_Reconcile_def clientGetClientIntents_def kissue_def IsNotFound_def
          split: option.splits prod.splits)
qed

theorem absent_or_specless_intent_is_noop_witness:
  "IsNotFound (fst (fst (clientGetIntents (''ns1'', ''client-intents'') (clusterOf [] [examplePolicy] noFaults))))
   \<and> NetworkPolicyReconciler_Reconcile (''ns1'', ''client-intents'') (clusterOf [] [examplePolicy] noFaults)
       = ((\<lparr>Requeue = False\<rparr>, None),
          (clusterOf [] [examplePolicy] noFaults)\<lparr>calls := [GetIntents (''ns1'', ''client-intents'')]\<rparr>)
   \<and> fst (clientGetIntents (''ns1'', ''client-intents'') (clusterOf [speclessIntents] [] noFaults))
       = (None, Some speclessIntents)
   \<and> intents_Spec speclessIntents = None
   \<and> NetworkPolicyReconciler_Reconcile (''ns1'', ''client-intents'') (clusterOf [speclessIntents] [] noFaults)
       = ((\<lparr>Requeue = False\<rparr>, None),
          (clusterOf [speclessIntents] [] noFaults)\<lparr>calls := [GetIntents (''ns1'', ''client-intents'')]\<rparr>)
   \<and> IsNotFound (fst (fst (clientGetClientIntents (''ns1'', ''client-intents'') (kafkaEnvOf [] [clientGrant] kNoFaults))))
   \<and> KafkaACLReconciler_Reconcile operatorElsewhere (''ns1'', ''client-intents'') (kafkaEnvOf [] [clientGrant] kNoFaults)
       = ((\<lparr>Requeue = False\<rparr>, None),
          (kafkaEnvOf [] [clientGrant] kNoFaults)\<lparr>kcalls := [OpGetClientIntents (''ns1'', ''client-intents'')]\<rparr>)
   \<and> fst (clientGetClientIntents (''ns1'', ''client-intents'') (kafkaEnvOf [speclessClientIntents] [] kNoFaults))
       = (None, Some speclessClientIntents)
   \<and> ci_Spec speclessClientIntents = None
   \<and> KafkaACLReconciler_Reconcile operatorElsewhere (''ns1'', ''client-intents'')
         (kafkaEnvOf [speclessClientIntents] [] kNoFaults)
       = ((\<lparr>Requeue = False\<rparr>, None),
          (kafkaEnvOf [speclessClientIntents] [] kNoFaults)\<lparr>kcalls := [OpGetClientIntents (''ns1'', ''client-intents'')]\<rparr>)"
proof -
  let ?req = "(''ns1'', ''client-intents'')"
  have a1: "IsNotFound (fst (fst (clientGetIntents ?req (clusterOf [] [examplePolicy] noFaults))))"
    by (simp add: client_defs example_defs)
  have a2: "fst (clientGetIntents ?req (clusterOf [speclessIntents] [] noFaults)) = (None, Some speclessIntents)"
    by (simp add: client_defs example_defs)
  have a3: "intents_Spec speclessIntents = None"
    by (simp add: speclessIntents_def)
  have b1: "IsNotFound (fst (fst (clientGetClientIntents ?req (kafkaEnvOf [] [clientGrant] kNoFaults))))"
    by (simp add: kafka_defs kafka_example_defs)
  have b2: "fst (clientGetClientIntents ?req (kafkaEnvOf [speclessClientIntents] [] kNoFaults))
              = (None, Some speclessClientIntents)"
    by (simp add: kafka_defs kafka_example_defs)
  have b3: "ci_Spec speclessClientIntents = None"
    by (simp add: speclessClientIntents_def)
  have n1: "NetworkPolicyReconciler_Reconcile ?req (clusterOf [] [examplePolicy] noFaults)
       = ((\<lparr>Requeue = False\<rparr>, None),
          (clusterOf [] [examplePolicy] noFaults)\<lparr>calls := [GetIntents ?req]\<rparr>)"
    using absent_or_specless_intent_is_noop [of ?req "clusterOf [] [examplePolicy] noFaults"] a1
    by (simp add: clusterOf_def)
  have n2: "NetworkPolicyReconciler_Reconcile ?req (clusterOf [speclessIntents] [] noFaults)
       = ((\<lparr>Requeue = False\<rparr>, None),
          (clusterOf [speclessIntents] [] noFaults)\<lparr>calls := [GetIntents ?req]\<rparr>)"
    using absent_or_specless_intent_is_noop [of ?req "clusterOf [speclessIntents] [] noFaults"] a2 a3
    by (simp add: clusterOf_def)
  have k1: "KafkaACLReconciler_Reconcile operatorElsewhere ?req (kafkaEnvOf [] [clientGrant] kNoFaults)
       = ((\<lparr>Requeue = False\<rparr>, None),
          (kafkaEnvOf [] [clientGrant] kNoFaults)\<lparr>kcalls := [OpGetClientIntents ?req]\<rparr>)"
    using absent_or_specless_intent_is_noop [of ?req _ "kafkaEnvOf [] [clientGrant] kNoFaults" operatorElsewhere] b1
    by (simp add: kafkaEnvOf_def)
  have k2: "KafkaACLReconciler_Reconcile operatorElsewhere ?req (kafkaEnvOf [speclessClientIntents] [] kNoFaults)
       = ((\<lparr>Requeue = False\<rparr>, None),
          (kafkaEnvOf [speclessClientIntents] [] kNoFaults)\<lparr>kcalls := [OpGetClientIntents ?req]\<rparr>)"
    using absent_or_specless_intent_is_noop [of ?req _ "kafkaEnvOf [speclessClientIntents] [] kNoFaults" operatorElsewhere] b2 b3
    by (simp add: kafkaEnvOf_def)
  from a1 n1 a2 a3 n2 b1 k1 b2 b3 k2 show ?thesis by (intro conjI) (assumption+)
qed

section \<open>Properties of the admission webhook\<close>

lemmas webhook_defs = ValidateCreate_def ValidateUpdate_def listProtectedServices_def
  validateNoDuplicateClients_def validateSpec_def removeAll_def IsAlphanumeric_def IsLowerCase_def
  isAlphanumericChar_def toLowerChar_def Let_def

text \<open>
  C8 at two failing inputs. A declaration named \<open>server\<close> for the service \<open>server\<close> is
  stored; a second object for the same service in the same namespace is admitted by
  \<open>ValidateCreate\<close>, where the claim wants an ``invalid'' error. And the update of the
  only declaration of a service, whose object name differs from the service name, is
  rejected as a duplicate of itself, where the claim wants it admitted.
\<close>

theorem duplicate_check_compares_with_spec_name:
  "ValidateCreate \<lparr>protectedServiceObjs = [storedDeclaration], listFault = None\<rparr> duplicateDeclaration = None
   \<and> ValidateUpdate \<lparr>protectedServiceObjs = [renamedDeclaration], listFault = None\<rparr>
        renamedDeclaration renamedDeclaration
      = Some (Invalid ''protect-server''
          [\<lparr>fe_Type = ErrorTypeDuplicate, fe_Field = ''name'', fe_BadValue = ''server'',
            fe_Detail = ''Protected service for service server already exist in resource protect-server''\<rparr>])"
  by (simp add: webhook_defs storedDeclaration_def duplicateDeclaration_def renamedDeclaration_def)

end
